theory Spec2Isabelle
  imports Main "HOL-Library.Char_ord" "HOL-Library.List_Lexorder"
begin

section \<open>Python values the build engine handles\<close>

text \<open>
  Strings are \<^typ>\<open>string\<close>; names in this program (class names, attribute names, platform
  names) are ASCII. \<open>str.lower\<close> and \<open>str.upper\<close> are modelled on the ASCII letters and leave
  every other character as it is.
\<close>

definition ascii_upper :: string where
  "ascii_upper = ''ABCDEFGHIJKLMNOPQRSTUVWXYZ''"

definition ascii_lower :: string where
  "ascii_lower = ''abcdefghijklmnopqrstuvwxyz''"

definition lower_char :: "char \<Rightarrow> char" where
  "lower_char c = (case map_of (zip ascii_upper ascii_lower) c of None \<Rightarrow> c | Some d \<Rightarrow> d)"

definition upper_char :: "char \<Rightarrow> char" where
  "upper_char c = (case map_of (zip ascii_lower ascii_upper) c of None \<Rightarrow> c | Some d \<Rightarrow> d)"

definition lower :: "string \<Rightarrow> string" where
  "lower s = map lower_char s"

definition upper :: "string \<Rightarrow> string" where
  "upper s = map upper_char s"

text \<open>\<open>s.startswith(p)\<close> and \<open>s.endswith(p)\<close>.\<close>

definition startswith :: "string \<Rightarrow> string \<Rightarrow> bool" where
  "startswith s p = (take (length p) s = p)"

definition endswith :: "string \<Rightarrow> string \<Rightarrow> bool" where
  "endswith s p = (length p \<le> length s \<and> drop (length s - length p) s = p)"

text \<open>
  \<open>s.partition(sep)\<close> for a one-character separator: the part before the first
  occurrence, the separator, the part after it; \<open>(s, "", "")\<close> when \<open>sep\<close> does not occur.
\<close>

fun str_partition :: "char \<Rightarrow> string \<Rightarrow> string \<times> string \<times> string" where
  "str_partition sep [] = ([], [], [])"
| "str_partition sep (c # cs) =
     (if c = sep then ([], [sep], cs)
      else (case str_partition sep cs of (b, s, a) \<Rightarrow> (c # b, s, a)))"

text \<open>\<open>x or d\<close> for an optional string \<open>x\<close>: \<open>None\<close> and the empty string are falsy.\<close>

definition str_or :: "string option \<Rightarrow> string \<Rightarrow> string" where
  "str_or x d = (case x of None \<Rightarrow> d | Some s \<Rightarrow> if s = [] then d else s)"

section \<open>TargetSystem\<close>

text \<open>
  The running host, as \<open>platform.machine()\<close> and \<open>platform.system()\<close> report it.
\<close>

record host =
  machine :: string
  system :: string

record target_system =
  architecture :: string
  platform :: string

text \<open>
  \<^verbatim>\<open>
    def __init__(self, target=None):
        arch = plat = None
        if target:
            plat, _, arch = target.partition("-")
        self.architecture = arch or platform.machine()
        self.platform = plat or platform.system().lower()
  \<close>
\<close>

definition TargetSystem :: "host \<Rightarrow> string option \<Rightarrow> target_system" where
  "TargetSystem h target =
     (let (plat, arch) =
        (case target of
           None \<Rightarrow> (None, None)
         | Some t \<Rightarrow>
             if t = [] then (None, None)
             else (case str_partition CHR ''-'' t of (p, _, a) \<Rightarrow> (Some p, Some a)))
      in \<lparr>architecture = str_or arch (machine h),
          platform = str_or plat (lower (system h))\<rparr>)"

definition is_linux :: "target_system \<Rightarrow> bool" where
  "is_linux t = (platform t = ''linux'')"

definition is_macos :: "target_system \<Rightarrow> bool" where
  "is_macos t = (platform t = ''darwin'')"

section \<open>Supported python versions\<close>

text \<open>
  \<open>Version\<close> and \<open>PythonSpec\<close> are value objects of the runez library. The source reads a
  version's \<open>is_valid\<close> and \<open>is_final\<close>, tests it for membership in a list (equality) and
  tests a spec's \<open>version\<close> for presence. A version is modelled by what these rest on: its
  numeric components (absent when the text did not parse) and its pre-release marker. The
  components are those runez compares two versions by, which are not the \<open>given_components\<close>
  of the text: zeros at the end do not tell versions apart, and are left out here. A spec
  carries its family, its version (\<open>None\<close> when there is none) and \<open>canonical\<close>, the text
  \<open>str(python_spec)\<close> gives, such as \<open>cpython:3.9.6\<close>.
\<close>

record pyversion =
  components :: "nat list option"
  prerelease :: "(string \<times> nat) option"

definition is_valid :: "pyversion \<Rightarrow> bool" where
  "is_valid v = (components v \<noteq> None)"


definition final_version :: "nat list \<Rightarrow> pyversion" where
  "final_version cs = \<lparr>components = Some cs, prerelease = None\<rparr>"

record python_spec =
  canonical :: string
  family :: string
  version :: "pyversion option"


text \<open>
  \<^verbatim>\<open>
    CPYTHON_VERSIONS = """
    3.9.6
    3.9.5
    3.8.9
    3.7.9
    3.6.9
    """
  \<close>
\<close>

definition CPYTHON_VERSIONS :: "pyversion list" where
  "CPYTHON_VERSIONS =
     [final_version [3, 9, 6], final_version [3, 9, 5], final_version [3, 8, 9],
      final_version [3, 7, 9], final_version [3, 6, 9]]"

text \<open>\<open>SupportedPythonVersions().family_by_name\<close>: one family, cpython.\<close>

definition family_by_name :: "(string \<times> pyversion list) list" where
  "family_by_name = [(''cpython'', CPYTHON_VERSIONS)]"

text \<open>What \<open>runez.abort\<close> is called with, and what \<open>LOG.warning\<close> is called with.\<close>

datatype abort =
    Invalid_python_spec python_spec
  | Family_not_supported string
  | Unknown_modules "string list"
  | Platform_not_supported string

datatype warning = Not_in_supported_list python_spec

text \<open>
  \<^verbatim>\<open>
    def family(self, family_name, fatal=True):
        fam = self.family_by_name.get(family_name)
        if fatal and not fam:
            runez.abort(f"Python family '{family_name}' is not yet supported")
        return fam

    def validate(self, python_spec):
        if not python_spec.version or not python_spec.version.is_valid:
            runez.abort("Invalid python spec: %s" % runez.red(python_spec))
        fam = self.family(python_spec.family)
        if python_spec.version not in fam.versions:
            LOG.warning("%s is not in the supported list, your mileage may vary" % python_spec)
  \<close>
  The result is the abort, or the warnings logged.
\<close>

definition get_family :: "string \<Rightarrow> abort + pyversion list" where
  "get_family family_name =
     (case map_of family_by_name family_name of
        None \<Rightarrow> Inl (Family_not_supported family_name)
      | Some fam \<Rightarrow> Inr fam)"

definition validate :: "python_spec \<Rightarrow> abort + warning list" where
  "validate spec =
     (case version spec of
        None \<Rightarrow> Inl (Invalid_python_spec spec)
      | Some v \<Rightarrow>
          if \<not> is_valid v then Inl (Invalid_python_spec spec)
          else (case get_family (family spec) of
                  Inl a \<Rightarrow> Inl a
                | Inr versions \<Rightarrow>
                    if v \<notin> set versions then Inr [Not_in_supported_list spec] else Inr []))"

section \<open>Values that are flattened and joined\<close>

text \<open>
  What a module selection, a telltale declaration or an exporter's output can be: \<open>None\<close>, a
  string, or a sequence (list, tuple, generator) of such values.
\<close>

datatype pyval = PyNone | Str string | Seq "pyval list"

text \<open>Python truthiness: \<open>None\<close>, the empty string and the empty sequence are falsy.\<close>

fun truthy :: "pyval \<Rightarrow> bool" where
  "truthy PyNone = False"
| "truthy (Str s) = (s \<noteq> [])"
| "truthy (Seq xs) = (xs \<noteq> [])"

text \<open>\<open>s.split(sep)\<close> for a one-character separator: \<open>"a,,b".split(",") == ["a", "", "b"]\<close>.\<close>

fun split_on :: "char \<Rightarrow> string \<Rightarrow> string list" where
  "split_on sep [] = [[]]"
| "split_on sep (c # cs) =
     (if c = sep then [] # split_on sep cs
      else (case split_on sep cs of
              [] \<Rightarrow> [[c]]
            | w # ws \<Rightarrow> (c # w) # ws))"

text \<open>\<open>delimiter.join(parts)\<close>.\<close>

fun join :: "string \<Rightarrow> string list \<Rightarrow> string" where
  "join d [] = []"
| "join d [x] = x"
| "join d (x # y # ys) = x @ d @ join d (y # ys)"

text \<open>
  Modelled from the spec: \<open>runez.flattened(value, keep_empty=None, split=sep)\<close>, a function of
  the runez library, which is not part of the sources. The spec's words for it: "the explicit
  comma-separated/flattened list of names, deduplicated, order preserved, empty entries
  discarded". The model walks the value left to right and appends each leaf to the result
  unless it is empty or already there; a string is first split at \<open>sep\<close> when one is given.
\<close>

definition add_leaf :: "string list \<Rightarrow> string \<Rightarrow> string list" where
  "add_leaf result s = (if s = [] \<or> s \<in> set result then result else result @ [s])"

fun flatten_into :: "char option \<Rightarrow> string list \<Rightarrow> pyval \<Rightarrow> string list" where
  "flatten_into split result PyNone = result"
| "flatten_into split result (Str s) =
     (case split of
        None \<Rightarrow> add_leaf result s
      | Some sep \<Rightarrow> foldl add_leaf result (split_on sep s))"
| "flatten_into split result (Seq xs) = foldl (flatten_into split) result xs"

definition flattened :: "char option \<Rightarrow> pyval \<Rightarrow> string list" where
  "flattened split v = flatten_into split [] v"

text \<open>
  Modelled from the spec: \<open>runez.joined(value, delimiter=d, keep_empty=None)\<close>, also of the
  runez library. The spec's words: "join fragments with the platform's path-list separator,
  otherwise join with a single space; empty/falsy fragments are discarded", "in yield order".
  \<open>fragments\<close> are the leaves kept, in order.
\<close>

fun fragments :: "pyval \<Rightarrow> string list" where
  "fragments PyNone = []"
| "fragments (Str s) = (if s = [] then [] else [s])"
| "fragments (Seq xs) = concat (map fragments xs)"

definition joined :: "string \<Rightarrow> pyval \<Rightarrow> string" where
  "joined delimiter v = join delimiter (fragments v)"

section \<open>Module classes and the builder registry\<close>

text \<open>
  An attribute of a builder, as \<open>getattr\<close> returns it: a method (modelled by what calling it
  yields) or a plain value.
\<close>

datatype attr = Method pyval | Plain pyval

text \<open>
  A concrete module class (a subclass of \<open>ModuleBuilder\<close>): its \<open>__name__\<close>, its
  \<open>needs_platforms\<close> (\<open>None\<close> or a list), its \<open>telltale\<close>, the attributes it defines itself
  (searched before those of the base class), and the platforms \<open>p\<close> for which it defines a
  method \<open>_do_p_compile\<close> of its own.
\<close>

record module_class =
  cls_name :: string
  needs_platforms :: "string list option"
  telltale :: pyval
  own_attrs :: "(string \<times> attr) list"
  own_compilers :: "string list"

text \<open>
  \<^verbatim>\<open>
    @classmethod
    def module_builder_name(cls):
        return cls.__name__.lower()
  \<close>
\<close>

definition module_builder_name :: "module_class \<Rightarrow> string" where
  "module_builder_name c = lower (cls_name c)"

text \<open>
  \<open>AvailableBuilders.available\<close> is a dict: an association list in insertion order, with
  \<open>available[name] = v\<close> replacing the value in place when the key is there already.
\<close>

type_synonym registry = "(string \<times> module_class) list"

fun dict_set :: "('k \<times> 'v) list \<Rightarrow> 'k \<Rightarrow> 'v \<Rightarrow> ('k \<times> 'v) list" where
  "dict_set [] k v = [(k, v)]"
| "dict_set ((k', v') # kvs) k v =
     (if k' = k then (k, v) # kvs else (k', v') # dict_set kvs k v)"

definition dict_keys :: "('k \<times> 'v) list \<Rightarrow> 'k list" where
  "dict_keys d = map fst d"

text \<open>
  \<^verbatim>\<open>
    def declare(self, decorated):
        name = decorated.module_builder_name()
        self.available[name] = decorated
        return decorated
  \<close>
  \<open>declared cs\<close> is the registry after the classes \<open>cs\<close> were declared in this order
  (\<open>ensure_imported\<close> has loaded them all before the first lookup).
\<close>

definition declare_builder :: "registry \<Rightarrow> module_class \<Rightarrow> registry" where
  "declare_builder available decorated = dict_set available (module_builder_name decorated) decorated"

definition declared :: "module_class list \<Rightarrow> registry" where
  "declared cs = foldl declare_builder [] cs"

text \<open>
  \<^verbatim>\<open>
    def is_applicable(self, module):
        return not module.needs_platforms or self.platform in module.needs_platforms
  \<close>
\<close>

definition platforms_of :: "module_class \<Rightarrow> string list" where
  "platforms_of c = (case needs_platforms c of None \<Rightarrow> [] | Some ps \<Rightarrow> ps)"

definition is_applicable :: "target_system \<Rightarrow> module_class \<Rightarrow> bool" where
  "is_applicable t c = (platforms_of c = [] \<or> platform t \<in> set (platforms_of c))"

text \<open>
  \<^verbatim>\<open>
    def skip_reason(self):
        if self.needs_platforms and not self.target.is_applicable(self):
            return "%s only" % runez.joined(self.needs_platforms, delimiter="/")
  \<close>
\<close>

definition skip_reason :: "target_system \<Rightarrow> module_class \<Rightarrow> string option" where
  "skip_reason t c =
     (if platforms_of c \<noteq> [] \<and> \<not> is_applicable t c
      then Some (join ''/'' (platforms_of c) @ '' only'')
      else None)"

text \<open>
  \<^verbatim>\<open>
    @runez.cached_property
    def sdk_folder(self):
        if self.is_macos:
            return "/Library/Developer/CommandLineTools/SDKs/MacOSX.sdk"

    @runez.cached_property
    def sys_include(self):
        if self.sdk_folder:
            return f"{self.sdk_folder}/usr/include"
        return "/usr/include"
  \<close>
\<close>

definition sdk_folder :: "target_system \<Rightarrow> string option" where
  "sdk_folder t =
     (if is_macos t then Some ''/Library/Developer/CommandLineTools/SDKs/MacOSX.sdk'' else None)"

definition sys_include :: "target_system \<Rightarrow> string" where
  "sys_include t =
     (case sdk_folder t of Some f \<Rightarrow> f @ ''/usr/include'' | None \<Rightarrow> ''/usr/include'')"

text \<open>
  \<open>telltale.format(include=...)\<close>, for templates whose only replacement field is
  \<open>{include}\<close>, as those of the sources are.
\<close>

fun format_include :: "string \<Rightarrow> string \<Rightarrow> string" where
  "format_include inc [] = []"
| "format_include inc (c # cs) =
     (if c = CHR ''{'' \<and> take 8 cs = ''include}'' then inc @ format_include inc (drop 8 cs)
      else c # format_include inc cs)"

text \<open>
  What the program asks of its surroundings is a parameter: which paths exist
  (\<open>os.path.exists\<close>) and are directories (\<open>Path.is_dir\<close>), and \<open>os.pathsep\<close>.
\<close>

record filesystem =
  path_exists :: "string \<Rightarrow> bool"
  is_dir :: "string \<Rightarrow> bool"
  pathsep :: string

text \<open>
  \<^verbatim>\<open>
    @classmethod
    def existing_telltale(cls, target):
        for telltale in runez.flattened(cls.telltale, keep_empty=None):
            path = telltale.format(include=target.sys_include)
            if os.path.exists(path):
                return path
  \<close>
\<close>

definition existing_telltale :: "filesystem \<Rightarrow> target_system \<Rightarrow> module_class \<Rightarrow> string option" where
  "existing_telltale fs t c =
     List.find (path_exists fs)
       (map (format_include (sys_include t)) (flattened None (telltale c)))"

text \<open>
  \<^verbatim>\<open>
    def without_telltale(self, target):
        for name, module in self.available.items():
            if module.telltale and target.is_applicable(module) and not module.existing_telltale(target):
                yield name
  \<close>
\<close>

definition without_telltale :: "filesystem \<Rightarrow> registry \<Rightarrow> target_system \<Rightarrow> string list" where
  "without_telltale fs available t =
     map fst
       (filter (\<lambda>(name, module).
                  truthy (telltale module) \<and> is_applicable t module \<and>
                  existing_telltale fs t module = None)
          available)"

text \<open>
  \<^verbatim>\<open>
    def resolved_module_names(self, module_names):
        if module_names == "none":
            return []
        if module_names == "all":
            return list(self.module_builders.available.keys())
        if not module_names:
            return self.module_builders.without_telltale(self.target_system)
        return runez.flattened(module_names, keep_empty=None, split=",")
  \<close>
\<close>

definition resolved_module_names ::
  "filesystem \<Rightarrow> registry \<Rightarrow> target_system \<Rightarrow> pyval \<Rightarrow> string list" where
  "resolved_module_names fs available t module_names =
     (if module_names = Str ''none'' then []
      else if module_names = Str ''all'' then dict_keys available
      else if \<not> truthy module_names then without_telltale fs available t
      else flattened (Some CHR '','') module_names)"

section \<open>BuildSetup: construction\<close>

text \<open>
  A builder instance: its class, the build folder \<open>attach\<close> gave it and its
  \<open>_log_handler\<close> (the identity of a handler object, or \<open>None\<close>). The \<open>setup\<close> it is attached
  to is passed to the operations that read it.
  \<^verbatim>\<open>
    def attach(self, setup):
        self.setup = setup
        self.build_folder = setup.build_folder / "build" / self.module_builder_name()
  \<close>
\<close>

record module_builder =
  cls :: module_class
  m_build_folder :: string
  log_handler :: "nat option"

definition path_join :: "string \<Rightarrow> string \<Rightarrow> string" where
  "path_join folder name = folder @ ''/'' @ name"

definition attach :: "string \<Rightarrow> module_class \<Rightarrow> module_builder" where
  "attach setup_build_folder c =
     \<lparr>cls = c,
      m_build_folder = path_join (path_join setup_build_folder ''build'') (module_builder_name c),
      log_handler = None\<rparr>"

text \<open>
  \<^verbatim>\<open>
    def get_builder(self, setup, name):
        self.ensure_imported()
        v = self.available.get(name)
        if v:
            v = v()
            v.attach(setup)
            return v
  \<close>
\<close>

definition get_builder :: "registry \<Rightarrow> string \<Rightarrow> string \<Rightarrow> module_builder option" where
  "get_builder available setup_build_folder name =
     (case map_of available name of
        None \<Rightarrow> None
      | Some v \<Rightarrow> Some (attach setup_build_folder v))"

record BuildSetup =
  python_spec :: python_spec
  target_system :: target_system
  build_folder :: string
  dist_folder :: string
  deps_folder :: string
  downloads_folder :: string
  logs_folder :: string
  python_builder :: "module_builder option"
  active_modules :: "module_builder list"
  skipped_modules :: "module_builder list"
  unknown_modules :: "string list"

text \<open>
  The loop of the constructor:
  \<^verbatim>\<open>
        for name in modules:
            m = self.module_builders.get_builder(self, name)
            if not m:
                self.unknown_modules.append(name)
                continue
            skip_reason = m.skip_reason()
            if skip_reason:
                LOG.info("Skipping %s: %s" % (m, skip_reason))
                self.skipped_modules.append(m)
            else:
                self.active_modules.append(m)
  \<close>
\<close>

fun classify_modules :: "registry \<Rightarrow> string list \<Rightarrow> BuildSetup \<Rightarrow> BuildSetup" where
  "classify_modules available [] self = self"
| "classify_modules available (name # names) self =
     (case get_builder available (build_folder self) name of
        None \<Rightarrow>
          classify_modules available names
            (self\<lparr>unknown_modules := unknown_modules self @ [name]\<rparr>)
      | Some m \<Rightarrow>
          if str_or (skip_reason (target_system self) (cls m)) [] \<noteq> []
          then classify_modules available names
                 (self\<lparr>skipped_modules := skipped_modules self @ [m]\<rparr>)
          else classify_modules available names
                 (self\<lparr>active_modules := active_modules self @ [m]\<rparr>))"

text \<open>
  \<^verbatim>\<open>
    def __init__(self, python_spec, modules=None, build_folder="build", dist_folder="dist", target=None):
        python_spec = PythonSpec.to_spec(python_spec)
        self.supported.validate(python_spec)
        self.python_spec = python_spec
        self.target_system = TargetSystem(target)
        build_folder = runez.to_path(build_folder, no_spaces=True).absolute()
        self.build_folder = build_folder / str(self.python_spec).replace(":", "-")
        self.dist_folder = runez.to_path(dist_folder).absolute()
        self.deps_folder = self.build_folder / "deps"
        self.downloads_folder = build_folder / "downloads"
        self.logs_folder = self.build_folder / "logs"
        self.anchors = {build_folder.parent, self.dist_folder.parent}
        self.python_builder = self.python_builders.get_builder(self, self.python_spec.family)
        modules = self.resolved_module_names(modules)
        self.active_modules = []
        self.skipped_modules = []
        self.unknown_modules = []
        for name in modules: ...
  \<close>
  The spec is given as a \<open>PythonSpec\<close> already, the two folders as absolute paths. The result
  is the abort of \<open>validate\<close>, or the setup together with the warnings logged.
\<close>

definition BuildSetup_init ::
  "host \<Rightarrow> filesystem \<Rightarrow> registry \<Rightarrow> registry \<Rightarrow> python_spec \<Rightarrow> pyval \<Rightarrow> string \<Rightarrow> string \<Rightarrow>
   string option \<Rightarrow> abort + BuildSetup \<times> warning list" where
  "BuildSetup_init h fs python_builders module_builders spec modules build_root dist target =
     (case validate spec of
        Inl a \<Rightarrow> Inl a
      | Inr warnings \<Rightarrow>
          let t = TargetSystem h target;
              folder = path_join build_root
                         (map (\<lambda>c. if c = CHR '':'' then CHR ''-'' else c) (canonical spec));
              self = \<lparr>python_spec = spec,
                      target_system = t,
                      build_folder = folder,
                      dist_folder = dist,
                      deps_folder = path_join folder ''deps'',
                      downloads_folder = path_join build_root ''downloads'',
                      logs_folder = path_join folder ''logs'',
                      python_builder = get_builder python_builders folder (family spec),
                      active_modules = [],
                      skipped_modules = [],
                      unknown_modules = []\<rparr>
          in Inr (classify_modules module_builders
                    (resolved_module_names fs module_builders t modules) self,
                  warnings))"

text \<open>The module classes of \<open>builder/db.py\<close>, in declaration order.\<close>

definition Gdbm :: module_class where
  "Gdbm = \<lparr>cls_name = ''Gdbm'', needs_platforms = Some [''linux''],
           telltale = Str ''{include}/gdbm.h'', own_attrs = [], own_compilers = []\<rparr>"

definition Bdb :: module_class where
  "Bdb = \<lparr>cls_name = ''Bdb'', needs_platforms = None,
          telltale = PyNone, own_attrs = [], own_compilers = []\<rparr>"

definition Sqlite :: module_class where
  "Sqlite = \<lparr>cls_name = ''Sqlite'', needs_platforms = None,
             telltale = Str ''{include}/sqlite3.h'', own_attrs = [], own_compilers = []\<rparr>"

definition db_modules :: registry where
  "db_modules = declared [Gdbm, Bdb, Sqlite]"

section \<open>ModuleBuilder: the environment\<close>

text \<open>
  \<^verbatim>\<open>
    def checked_deps_folder(self, path, prefix=""):
        path = self.deps / path
        if path.is_dir():
            return f"{prefix}{path}"
  \<close>
\<close>

definition checked_deps_folder :: "filesystem \<Rightarrow> string \<Rightarrow> string \<Rightarrow> pyval" where
  "checked_deps_folder fs deps path =
     (if is_dir fs (path_join deps path) then Str (path_join deps path) else PyNone)"

text \<open>
  The exporters of the base class, each with what it yields:
  \<^verbatim>\<open>
    def xenv_archflags(self):
        yield "-arch", self.target.architecture
    def xenv_cpath(self):
        yield self.checked_deps_folder("include")
        yield self.checked_deps_folder("include/readline")
        yield self.checked_deps_folder("include/uuid")
        yield self.checked_deps_folder("include/openssl")
    def xenv_library_path(self):
        yield self.checked_deps_folder("lib")
    def xenv_ld_library_path(self):
        yield self.checked_deps_folder("lib")
    def xenv_macosx_deployment_target(self):
        if self.target.is_macos:
            yield "10.14"
    def xenv_path(self):
        yield self.checked_deps_folder("bin")
        yield "/usr/bin"
        yield "/bin"
    def xenv_pkg_config_path(self):
        yield self.checked_deps_folder("lib/pkgconfig")
  \<close>
  A builder's attributes are those of its class, then those of the base class.
\<close>

definition ModuleBuilder_attrs :: "filesystem \<Rightarrow> target_system \<Rightarrow> string \<Rightarrow> (string \<times> attr) list" where
  "ModuleBuilder_attrs fs t deps =
     [(''xenv_archflags'', Method (Seq [Seq [Str ''-arch'', Str (architecture t)]])),
      (''xenv_cpath'',
         Method (Seq [checked_deps_folder fs deps ''include'',
                      checked_deps_folder fs deps ''include/readline'',
                      checked_deps_folder fs deps ''include/uuid'',
                      checked_deps_folder fs deps ''include/openssl''])),
      (''xenv_library_path'', Method (Seq [checked_deps_folder fs deps ''lib''])),
      (''xenv_ld_library_path'', Method (Seq [checked_deps_folder fs deps ''lib''])),
      (''xenv_macosx_deployment_target'', Method (Seq (if is_macos t then [Str ''10.14''] else []))),
      (''xenv_path'',
         Method (Seq [checked_deps_folder fs deps ''bin'', Str ''/usr/bin'', Str ''/bin''])),
      (''xenv_pkg_config_path'', Method (Seq [checked_deps_folder fs deps ''lib/pkgconfig'']))]"

definition builder_attrs :: "filesystem \<Rightarrow> target_system \<Rightarrow> string \<Rightarrow> module_class \<Rightarrow> (string \<times> attr) list" where
  "builder_attrs fs t deps c = own_attrs c @ ModuleBuilder_attrs fs t deps"

text \<open>
  \<open>dir(self)\<close> is the sorted list of the attribute names, each once.
  \<^verbatim>\<open>
    def exported_env_vars(self):
        for name in sorted(dir(self)):
            if name.startswith("xenv_"):
                yield name
  \<close>
\<close>

definition dir_names :: "(string \<times> attr) list \<Rightarrow> string list" where
  "dir_names attrs = sort (remdups (map fst attrs))"

definition exported_env_vars :: "(string \<times> attr) list \<Rightarrow> string list" where
  "exported_env_vars attrs = filter (\<lambda>name. startswith name ''xenv_'') (sort (dir_names attrs))"

text \<open>
  \<^verbatim>\<open>
    @staticmethod
    def setenv(key, value):
        LOG.debug("env %s=%s" % (key, runez.short(value, size=2048)))
        os.environ[key] = value

    def _setup_env(self):
        for func_name in self.exported_env_vars():
            name = func_name[5:].upper()
            delimiter = os.pathsep if name.endswith("PATH") else " "
            value = getattr(self, func_name)
            if value:
                if callable(value):
                    value = value()
                value = runez.joined(value, delimiter=delimiter, keep_empty=None)
                if value:
                    self.setenv(name, value)
  \<close>
  \<open>export_of\<close> is the call of \<open>setenv\<close> one round of the loop makes, if it makes one;
  \<open>os.environ\<close> is a map from names to values.
\<close>

fun attr_truthy :: "attr \<Rightarrow> bool" where
  "attr_truthy (Method out) = True"
| "attr_truthy (Plain v) = truthy v"

fun attr_value :: "attr \<Rightarrow> pyval" where
  "attr_value (Method out) = out"
| "attr_value (Plain v) = v"

definition export_of :: "filesystem \<Rightarrow> (string \<times> attr) list \<Rightarrow> string \<Rightarrow> (string \<times> string) option" where
  "export_of fs attrs func_name =
     (let name = upper (drop 5 func_name);
          delimiter = (if endswith name ''PATH'' then pathsep fs else '' '')
      in case map_of attrs func_name of
           None \<Rightarrow> None
         | Some value \<Rightarrow>
             if attr_truthy value
             then (let joined_value = joined delimiter (attr_value value)
                   in if joined_value \<noteq> [] then Some (name, joined_value) else None)
             else None)"

type_synonym environ = "string \<Rightarrow> string option"

definition setenv :: "environ \<Rightarrow> string \<Rightarrow> string \<Rightarrow> environ" where
  "setenv env key v = env(key \<mapsto> v)"

definition setup_step :: "filesystem \<Rightarrow> (string \<times> attr) list \<Rightarrow> environ \<Rightarrow> string \<Rightarrow> environ" where
  "setup_step fs attrs env func_name =
     (case export_of fs attrs func_name of
        None \<Rightarrow> env
      | Some (name, v) \<Rightarrow> setenv env name v)"

definition setup_env :: "filesystem \<Rightarrow> (string \<times> attr) list \<Rightarrow> environ \<Rightarrow> environ" where
  "setup_env fs attrs env = foldl (setup_step fs attrs) env (exported_env_vars attrs)"


section \<open>Log files and the compile pipeline\<close>

text \<open>
  The decimal digits of a number, and the format \<open>{n:02}\<close>: the digits, with zeros in front
  up to a width of two.
\<close>

definition digit_char :: "nat \<Rightarrow> char" where
  "digit_char d = ''0123456789'' ! d"

fun decimal :: "nat \<Rightarrow> string" where
  "decimal n = (if n < 10 then [digit_char n] else decimal (n div 10) @ [digit_char (n mod 10)])"

declare decimal.simps [simp del]

definition zero_padded2 :: "nat \<Rightarrow> string" where
  "zero_padded2 n = replicate (2 - length (decimal n)) CHR ''0'' @ decimal n"

definition log_basename :: "nat \<Rightarrow> string \<Rightarrow> string" where
  "log_basename counter name = zero_padded2 counter @ ''-'' @ name @ ''.log''"

text \<open>
  How a call ends other than by returning: \<open>runez.abort\<close>, or an exception raised by an
  external tool or by a fault.
\<close>

datatype fault = Aborted abort | Raised string

text \<open>
  The calls the pipeline makes to its surroundings and to the hooks of a builder, with their
  arguments: \<open>runez.ensure_folder(path, clean)\<close>, \<open>runez.delete(path)\<close>,
  \<open>logging.FileHandler(path)\<close>, \<open>logging.root.addHandler\<close> and \<open>removeHandler\<close> (by the
  identity of the handler), and for the builder named \<open>unpack\<close>, \<open>_setup_env\<close>, \<open>_prepare\<close>,
  the platform's \<open>_do_p_compile\<close> and \<open>_finalize\<close>. Which of them fail, and how, is a
  parameter \<open>faults\<close> of the model; handlers are added and removed without fault.
\<close>

datatype call =
    Ensure_folder string bool
  | Delete string
  | File_handler string
  | Add_handler nat
  | Remove_handler nat
  | Unpack string
  | Setup_env string
  | Prepare string
  | Platform_compile string string
  | Finalize string

text \<open>
  The state a run changes: \<open>_log_counter\<close> of the one \<open>BuildSetup\<close> of the run,
  \<open>logging.root.handlers\<close>, the identity the next object created gets, \<open>os.environ\<close>, and the
  calls made so far, oldest first.
\<close>

record runtime =
  log_counter :: nat
  root_handlers :: "nat list"
  next_object :: nat
  environ :: environ
  calls :: "call list"

definition invoke :: "(call \<Rightarrow> fault option) \<Rightarrow> call \<Rightarrow> runtime \<Rightarrow> fault option \<times> runtime" where
  "invoke faults c rt = (faults c, rt\<lparr>calls := calls rt @ [c]\<rparr>)"

definition and_then ::
  "fault option \<times> runtime \<Rightarrow> (runtime \<Rightarrow> fault option \<times> runtime) \<Rightarrow> fault option \<times> runtime" where
  "and_then r k = (case r of (Some f, rt) \<Rightarrow> (Some f, rt) | (None, rt) \<Rightarrow> k rt)"

text \<open>
  \<^verbatim>\<open>
    def _get_logs_path(self, name):
        """Log file to use for a compilation, name is such that alphabetical sort conserves the order in which compilations occurred"""
        runez.ensure_folder(self.logs_folder, logger=None)
        self._log_counter += 1
        basename = f"{self._log_counter:02}-{name}.log"
        path = self.logs_folder / basename
        runez.delete(path, logger=None)
        return path
  \<close>
\<close>

definition get_logs_path ::
  "(call \<Rightarrow> fault option) \<Rightarrow> BuildSetup \<Rightarrow> string \<Rightarrow> runtime \<Rightarrow> (fault + string) \<times> runtime" where
  "get_logs_path faults self name rt =
     (case invoke faults (Ensure_folder (logs_folder self) False) rt of
        (Some f, rt1) \<Rightarrow> (Inl f, rt1)
      | (None, rt1) \<Rightarrow>
          let rt2 = rt1\<lparr>log_counter := log_counter rt1 + 1\<rparr>;
              path = path_join (logs_folder self) (log_basename (log_counter rt2) name)
          in (case invoke faults (Delete path) rt2 of
                (Some f, rt3) \<Rightarrow> (Inl f, rt3)
              | (None, rt3) \<Rightarrow> (Inr path, rt3)))"

text \<open>The log files successive calls of \<open>_get_logs_path\<close> allocate, up to the first fault.\<close>

fun allocated_logs ::
  "(call \<Rightarrow> fault option) \<Rightarrow> BuildSetup \<Rightarrow> string list \<Rightarrow> runtime \<Rightarrow> string list" where
  "allocated_logs faults self [] rt = []"
| "allocated_logs faults self (name # names) rt =
     (case get_logs_path faults self name rt of
        (Inl f, rt1) \<Rightarrow> []
      | (Inr path, rt1) \<Rightarrow> path # allocated_logs faults self names rt1)"

text \<open>
  \<open>logging.root.addHandler(h)\<close> appends \<open>h\<close> unless it is there; \<open>removeHandler(h)\<close> removes
  it if it is there.
\<close>

definition addHandler :: "nat \<Rightarrow> runtime \<Rightarrow> runtime" where
  "addHandler h rt =
     rt\<lparr>root_handlers := (if h \<in> set (root_handlers rt) then root_handlers rt
                           else root_handlers rt @ [h]),
        calls := calls rt @ [Add_handler h]\<rparr>"

definition removeHandler :: "nat \<Rightarrow> runtime \<Rightarrow> runtime" where
  "removeHandler h rt =
     rt\<lparr>root_handlers := remove1 h (root_handlers rt),
        calls := calls rt @ [Remove_handler h]\<rparr>"

text \<open>
  \<^verbatim>\<open>
    @contextlib.contextmanager
    def captured_logs(self):
        try:
            logs_path = self.setup._get_logs_path(self.module_builder_name())
            if logs_path.parent.is_dir():
                self._log_handler = logging.FileHandler(logs_path)
                self._log_handler.setFormatter(logging.Formatter("%(asctime)s %(levelname)s %(message)s"))
                self._log_handler.setLevel(logging.DEBUG)
                logging.root.addHandler(self._log_handler)
            yield
        finally:
            if self._log_handler:
                logging.root.removeHandler(self._log_handler)
                self._log_handler = None
  \<close>
  \<open>captured_logs_enter\<close> is the part before \<open>yield\<close>, \<open>captured_logs_exit\<close> the \<open>finally\<close>
  block, which runs however the part before it or the body of the \<open>with\<close> statement ends.
  The parent of the log path is the logs folder.
\<close>

definition captured_logs_enter ::
  "(call \<Rightarrow> fault option) \<Rightarrow> filesystem \<Rightarrow> BuildSetup \<Rightarrow> module_builder \<Rightarrow> runtime \<Rightarrow>
   fault option \<times> module_builder \<times> runtime" where
  "captured_logs_enter faults fs self m rt =
     (case get_logs_path faults self (module_builder_name (cls m)) rt of
        (Inl f, rt1) \<Rightarrow> (Some f, m, rt1)
      | (Inr logs_path, rt1) \<Rightarrow>
          if is_dir fs (logs_folder self)
          then (case invoke faults (File_handler logs_path) rt1 of
                  (Some f, rt2) \<Rightarrow> (Some f, m, rt2)
                | (None, rt2) \<Rightarrow>
                    let h = next_object rt2
                    in (None, m\<lparr>log_handler := Some h\<rparr>,
                        addHandler h (rt2\<lparr>next_object := h + 1\<rparr>)))
          else (None, m, rt1))"

definition captured_logs_exit :: "module_builder \<Rightarrow> runtime \<Rightarrow> module_builder \<times> runtime" where
  "captured_logs_exit m rt =
     (case log_handler m of
        None \<Rightarrow> (m, rt)
      | Some h \<Rightarrow> (m\<lparr>log_handler := None\<rparr>, removeHandler h rt))"

text \<open>
  \<open>getattr(self, "_do_%s_compile" % platform, None)\<close> finds a method for darwin and linux
  (those of the base class) and for the platforms the class has a method of its own for.
\<close>

definition has_compiler :: "module_class \<Rightarrow> string \<Rightarrow> bool" where
  "has_compiler c p = (p \<in> set [''darwin'', ''linux''] \<or> p \<in> set (own_compilers c))"

definition run_setup_env ::
  "(call \<Rightarrow> fault option) \<Rightarrow> filesystem \<Rightarrow> BuildSetup \<Rightarrow> module_builder \<Rightarrow> runtime \<Rightarrow>
   fault option \<times> runtime" where
  "run_setup_env faults fs self m rt =
     and_then (invoke faults (Setup_env (module_builder_name (cls m))) rt)
       (\<lambda>rt. (None,
               rt\<lparr>environ :=
                    setup_env fs
                      (builder_attrs fs (target_system self) (deps_folder self) (cls m))
                      (environ rt)\<rparr>))"

text \<open>
  \<^verbatim>\<open>
    def compile(self, x_debug):
        started = time.time()
        print(Header.aerated(self.module_builder_name()))
        with self.captured_logs():
            if not x_debug or not self.build_folder.is_dir():
                # Build folder would exist only if we're doing an --x-debug run
                self.unpack()
                self._setup_env()
                self._prepare()
                func = getattr(self, "_do_%s_compile" % self.target.platform, None)
                if not func:
                    runez.abort("Compiling on platform '%s' is not yet supported" % runez.red(self.target.platform))
                func()
            self._finalize()
            LOG.info("Compiled %s %s in %s" % (...))
  \<close>
  \<open>compile_body\<close> is the body of the \<open>with\<close> statement; a fault of \<open>_setup_env\<close> is taken
  to occur before it sets a variable.
\<close>

definition compile_body ::
  "(call \<Rightarrow> fault option) \<Rightarrow> filesystem \<Rightarrow> BuildSetup \<Rightarrow> module_builder \<Rightarrow> bool \<Rightarrow> runtime \<Rightarrow>
   fault option \<times> runtime" where
  "compile_body faults fs self m x_debug rt =
     (let name = module_builder_name (cls m);
          p = platform (target_system self)
      in if \<not> x_debug \<or> \<not> is_dir fs (m_build_folder m)
         then and_then (invoke faults (Unpack name) rt) (\<lambda>rt.
              and_then (run_setup_env faults fs self m rt) (\<lambda>rt.
              and_then (invoke faults (Prepare name) rt) (\<lambda>rt.
              if \<not> has_compiler (cls m) p then (Some (Aborted (Platform_not_supported p)), rt)
              else and_then (invoke faults (Platform_compile name p) rt) (\<lambda>rt.
                   invoke faults (Finalize name) rt))))
         else invoke faults (Finalize name) rt)"

definition ModuleBuilder_compile ::
  "(call \<Rightarrow> fault option) \<Rightarrow> filesystem \<Rightarrow> BuildSetup \<Rightarrow> module_builder \<Rightarrow> bool \<Rightarrow> runtime \<Rightarrow>
   fault option \<times> module_builder \<times> runtime" where
  "ModuleBuilder_compile faults fs self m x_debug rt =
     (case captured_logs_enter faults fs self m rt of
        (Some f, m1, rt1) \<Rightarrow>
          (case captured_logs_exit m1 rt1 of (m2, rt2) \<Rightarrow> (Some f, m2, rt2))
      | (None, m1, rt1) \<Rightarrow>
          (case compile_body faults fs self m1 x_debug rt1 of
             (r, rt2) \<Rightarrow> (case captured_logs_exit m1 rt2 of (m2, rt3) \<Rightarrow> (r, m2, rt3))))"

text \<open>
  \<^verbatim>\<open>
    def compile(self, x_debug=None):
        with runez.Anchored(*self.anchors):
            runez.ensure_folder(self.build_folder, clean=not x_debug)
            if self.unknown_modules:
                return runez.abort("Unknown modules: %s" % runez.joined(self.unknown_modules, delimiter=", ", stringify=runez.red))
            LOG.info("Compiling %s" % runez.plural(self.active_modules, "external module"))
            for m in self.active_modules:
                m.compile(x_debug)
            self.python_builder.compile(x_debug)
  \<close>
  \<open>compile_modules\<close> is the loop; the first fault ends it. The builders come back with their
  \<open>_log_handler\<close> as the calls left it.
\<close>

fun compile_modules ::
  "(call \<Rightarrow> fault option) \<Rightarrow> filesystem \<Rightarrow> BuildSetup \<Rightarrow> module_builder list \<Rightarrow> bool \<Rightarrow> runtime \<Rightarrow>
   fault option \<times> module_builder list \<times> runtime" where
  "compile_modules faults fs self [] x_debug rt = (None, [], rt)"
| "compile_modules faults fs self (m # ms) x_debug rt =
     (case ModuleBuilder_compile faults fs self m x_debug rt of
        (Some f, m', rt1) \<Rightarrow> (Some f, m' # ms, rt1)
      | (None, m', rt1) \<Rightarrow>
          (case compile_modules faults fs self ms x_debug rt1 of
             (r, ms', rt2) \<Rightarrow> (r, m' # ms', rt2)))"

definition BuildSetup_compile ::
  "(call \<Rightarrow> fault option) \<Rightarrow> filesystem \<Rightarrow> BuildSetup \<Rightarrow> bool \<Rightarrow> runtime \<Rightarrow>
   fault option \<times> BuildSetup \<times> runtime" where
  "BuildSetup_compile faults fs self x_debug rt =
     (case invoke faults (Ensure_folder (build_folder self) (\<not> x_debug)) rt of
        (Some f, rt1) \<Rightarrow> (Some f, self, rt1)
      | (None, rt1) \<Rightarrow>
          if unknown_modules self \<noteq> []
          then (Some (Aborted (Unknown_modules (unknown_modules self))), self, rt1)
          else (case compile_modules faults fs self (active_modules self) x_debug rt1 of
                  (Some f, ms, rt2) \<Rightarrow> (Some f, self\<lparr>active_modules := ms\<rparr>, rt2)
                | (None, ms, rt2) \<Rightarrow>
                    (case python_builder self of
                       None \<Rightarrow> (Some (Raised ''AttributeError''), self\<lparr>active_modules := ms\<rparr>, rt2)
                     | Some pb \<Rightarrow>
                         (case ModuleBuilder_compile faults fs self pb x_debug rt2 of
                            (r, pb', rt3) \<Rightarrow>
                              (r, self\<lparr>active_modules := ms, python_builder := Some pb'\<rparr>, rt3)))))"

section \<open>What the claims compare the code with\<close>

text \<open>
  The classification a name should get, in the words of the specification: a name the
  registry does not know is unknown, a registered name whose builder reports a skip reason is
  skipped, every other registered name is active.
\<close>

datatype classification = Active | Skipped | Unknown

definition classification_of :: "registry \<Rightarrow> target_system \<Rightarrow> string \<Rightarrow> classification" where
  "classification_of available t name =
     (case map_of available name of
        None \<Rightarrow> Unknown
      | Some c \<Rightarrow> (case skip_reason t c of None \<Rightarrow> Active | Some reason \<Rightarrow> Skipped))"

definition builder_names :: "module_builder list \<Rightarrow> string list" where
  "builder_names ms = map (\<lambda>m. module_builder_name (cls m)) ms"

text \<open>
  The names a selection spells out, before empty entries and repetitions are dropped: every
  string of the (possibly nested) value, cut at its commas, from left to right.
\<close>

fun requested_names :: "pyval \<Rightarrow> string list" where
  "requested_names PyNone = []"
| "requested_names (Str s) = split_on CHR '','' s"
| "requested_names (Seq xs) = concat (map requested_names xs)"

text \<open>
  The calls of a run that invoke a hook of a builder, and those that add or remove a log
  handler; the handlers installed after a sequence of calls, and the largest number of
  handlers installed at any moment of it.
\<close>

fun is_hook :: "call \<Rightarrow> bool" where
  "is_hook (Unpack n) = True"
| "is_hook (Setup_env n) = True"
| "is_hook (Prepare n) = True"
| "is_hook (Platform_compile n p) = True"
| "is_hook (Finalize n) = True"
| "is_hook c = False"

definition hook_calls :: "call list \<Rightarrow> call list" where
  "hook_calls cs = filter is_hook cs"

fun is_handler_call :: "call \<Rightarrow> bool" where
  "is_handler_call (Add_handler h) = True"
| "is_handler_call (Remove_handler h) = True"
| "is_handler_call c = False"

definition handler_calls :: "call list \<Rightarrow> call list" where
  "handler_calls cs = filter is_handler_call cs"

fun replay :: "nat list \<Rightarrow> call list \<Rightarrow> nat list" where
  "replay hs [] = hs"
| "replay hs (Add_handler h # cs) = replay (if h \<in> set hs then hs else hs @ [h]) cs"
| "replay hs (Remove_handler h # cs) = replay (remove1 h hs) cs"
| "replay hs (c # cs) = replay hs cs"

fun peak :: "nat list \<Rightarrow> call list \<Rightarrow> nat" where
  "peak hs [] = length hs"
| "peak hs (c # cs) = max (length hs) (peak (replay hs [c]) cs)"

text \<open>The hooks of a full compile of the builder \<open>name\<close> on the platform \<open>p\<close>, in order.\<close>

definition pipeline :: "string \<Rightarrow> string \<Rightarrow> call list" where
  "pipeline name p = [Unpack name, Setup_env name, Prepare name, Platform_compile name p, Finalize name]"

text \<open>A list without its repetitions, each element where it first occurs.\<close>

definition first_occurrences :: "'a list \<Rightarrow> 'a list" where
  "first_occurrences xs = rev (remdups (rev xs))"

text \<open>Concrete surroundings and inputs, for the examples.\<close>

definition example_host :: host where
  "example_host = \<lparr>machine = ''x86_64'', system = ''Darwin''\<rparr>"

definition example_fs :: filesystem where
  "example_fs = \<lparr>path_exists = (\<lambda>p. p = ''/usr/include/sqlite3.h''),
                  is_dir = (\<lambda>p. p = ''/b/cpython-3.9.6/logs''), pathsep = '':''\<rparr>"

definition example_spec :: python_spec where
  "example_spec = \<lparr>canonical = ''cpython:3.9.6'', family = ''cpython'',
                    version = Some (final_version [3, 9, 6])\<rparr>"


text \<open>
  Surroundings in which three folders exist under the dependency folder \<open>/d\<close>, a prior
  environment, a linux target, and the attributes of a builder with two of its own.
\<close>

definition deps_fs :: filesystem where
  "deps_fs = \<lparr>path_exists = (\<lambda>p. False),
               is_dir = (\<lambda>p. p \<in> set [''/d/include'', ''/d/include/openssl'', ''/d/bin'']),
               pathsep = '':''\<rparr>"

definition prior_env :: environ where
  "prior_env = [''LIBRARY_PATH'' \<mapsto> ''/old'', ''CPATH'' \<mapsto> ''/x'']"

definition linux_target :: target_system where
  "linux_target = \<lparr>architecture = ''x86_64'', platform = ''linux''\<rparr>"

definition example_attrs :: "(string \<times> attr) list" where
  "example_attrs = builder_attrs deps_fs linux_target ''/d''
     (Sqlite\<lparr>own_attrs := [(''xenv_cflags'', Method (Seq [Str ''-O2'', Str [], PyNone, Str ''-g''])),
                            (''version'', Plain (Str ''3.36.0''))]\<rparr>)"

text \<open>
  A fresh run, surroundings in which nothing fails, and the setup the constructor returns for
  the example spec, a selection and a target (validation accepts the example spec, so there is
  one).
\<close>

definition start :: runtime where
  "start = \<lparr>log_counter = 0, root_handlers = [], next_object = 0, environ = Map.empty, calls = []\<rparr>"

definition Cpython :: module_class where
  "Cpython = \<lparr>cls_name = ''Cpython'', needs_platforms = None, telltale = PyNone,
               own_attrs = [], own_compilers = []\<rparr>"

definition no_faults :: "call \<Rightarrow> fault option" where
  "no_faults c = None"

definition built :: "string \<Rightarrow> string option \<Rightarrow> BuildSetup" where
  "built sel tgt =
     (case BuildSetup_init example_host example_fs (declared [Cpython]) (declared [Gdbm, Bdb, Sqlite])
             example_spec (Str sel) ''/b'' ''/d'' tgt of
        Inr (s, w) \<Rightarrow> s)"

text \<open>The log files of a hundred compilations of one setup, none of which fails.\<close>

definition hundred_logs :: "string list" where
  "hundred_logs = allocated_logs no_faults (built ''none'' None) (replicate 100 ''m'') start"

text \<open>Surroundings in which the build folder of sqlite is there already, and its builder.\<close>

definition resume_fs :: filesystem where
  "resume_fs = \<lparr>path_exists = (\<lambda>p. False),
                 is_dir = (\<lambda>p. p \<in> set [''/b/cpython-3.9.6/logs'', ''/b/cpython-3.9.6/build/sqlite'']),
                 pathsep = '':''\<rparr>"

definition sqlite_builder :: module_builder where
  "sqlite_builder = attach ''/b/cpython-3.9.6'' Sqlite"

text \<open>Surroundings in which the build step of sqlite fails.\<close>

definition make_fails :: "call \<Rightarrow> fault option" where
  "make_fails c =
     (if c = Platform_compile ''sqlite'' ''darwin'' then Some (Raised ''make failed'') else None)"

section \<open>Properties of TargetSystem\<close>

lemma str_partition_no_sep:
  "sep \<notin> set s \<Longrightarrow> str_partition sep s = (s, [], [])"
  by (induction s) auto

lemma str_partition_first:
  "sep \<notin> set p \<Longrightarrow> str_partition sep (p @ sep # a) = (p, [sep], a)"
  by (induction p) auto

text \<open>
  Claim C10, as amended. For a target string whose part \<open>p\<close> before the first dash is not
  empty: with no dash at all, or with nothing after the first dash, the platform is \<open>p\<close> and
  the architecture is the host's machine. In general only the first dash splits: the
  architecture is all that follows it (further dashes included), or the host's machine when
  nothing follows; and the platform is \<open>p\<close>, or the host's lower-cased system name when
  \<open>p\<close> is empty.
\<close>

theorem TargetSystem_explicit:
  "CHR ''-'' \<notin> set p \<Longrightarrow>
     (p \<noteq> [] \<longrightarrow>
        TargetSystem h (Some p) = \<lparr>architecture = machine h, platform = p\<rparr> \<and>
        TargetSystem h (Some (p @ ''-'')) = \<lparr>architecture = machine h, platform = p\<rparr>) \<and>
     TargetSystem h (Some (p @ ''-'' @ a)) =
       \<lparr>architecture = (if a = [] then machine h else a),
        platform = (if p = [] then lower (system h) else p)\<rparr>"
  using str_partition_first [of "CHR ''-''" p "[]"]
  by (simp add: TargetSystem_def str_or_def str_partition_no_sep str_partition_first)

theorem TargetSystem_explicit_witness:
  "CHR ''-'' \<notin> set ''linux'' \<and>
   TargetSystem example_host (Some ''linux'') = \<lparr>architecture = ''x86_64'', platform = ''linux''\<rparr> \<and>
   TargetSystem example_host (Some ''linux-'') = \<lparr>architecture = ''x86_64'', platform = ''linux''\<rparr> \<and>
   TargetSystem example_host (Some ''linux-arm-v7'') =
     \<lparr>architecture = ''arm-v7'', platform = ''linux''\<rparr>"
  using TargetSystem_explicit [of "''linux''" example_host "''arm-v7''"]
  by (simp add: example_host_def)

text \<open>
  The claim as stated fails at the target \<open>-\<close>: nothing follows its first dash, yet the
  platform is not the (empty) part before the dash but the host's system name.
\<close>

theorem TargetSystem_dash_counterexample:
  "fst (str_partition CHR ''-'' ''-'') = [] \<and>
   platform (TargetSystem example_host (Some ''-'')) = ''darwin'' \<and>
   architecture (TargetSystem example_host (Some ''-'')) = ''x86_64''"
  by (simp add: TargetSystem_def str_or_def example_host_def lower_def lower_char_def
        ascii_upper_def ascii_lower_def)

section \<open>Properties of validation\<close>




section \<open>Properties of the registry and of the classification\<close>

lemma set_dict_set: "set (dict_set d k v) \<subseteq> insert (k, v) (set d)"
  by (induction d) (auto split: if_splits)

lemma dict_set_names:
  "\<forall>(k, c) \<in> set d. f c = k \<Longrightarrow> \<forall>(k, c) \<in> set (dict_set d (f x) x). f c = k"
  using set_dict_set [of d "f x" x] by auto

lemma foldl_declare_names:
  "\<forall>(k, c) \<in> set d. module_builder_name c = k \<Longrightarrow>
   \<forall>(k, c) \<in> set (foldl declare_builder d cs). module_builder_name c = k"
proof (induction cs arbitrary: d)
  case Nil
  then show ?case by simp
next
  case (Cons x cs)
  have "\<forall>(k, c) \<in> set (declare_builder d x). module_builder_name c = k"
    unfolding declare_builder_def using Cons.prems by (rule dict_set_names)
  then show ?case using Cons.IH by simp
qed

lemma declared_name:
  assumes "map_of (declared cs) n = Some c"
  shows "module_builder_name c = n"
proof -
  have "\<forall>(k, c) \<in> set (declared cs). module_builder_name c = k"
    unfolding declared_def by (rule foldl_declare_names) simp
  moreover have "(n, c) \<in> set (declared cs)"
    using assms by (rule map_of_SomeD)
  ultimately show ?thesis by auto
qed

lemma skip_reason_nonempty: "skip_reason t c = Some r \<Longrightarrow> r \<noteq> []"
  by (auto simp: skip_reason_def split: if_splits)

lemma classify_modules_fixed:
  "target_system (classify_modules reg names self) = target_system self \<and>
   build_folder (classify_modules reg names self) = build_folder self"
  by (induction names arbitrary: self) (auto split: option.splits)

lemma classify_modules_unknown:
  "unknown_modules (classify_modules reg names self) =
     unknown_modules self @
     filter (\<lambda>n. classification_of reg (target_system self) n = Unknown) names"
  by (induction names arbitrary: self)
     (auto simp: classification_of_def get_builder_def split: option.splits)

lemma classify_modules_skipped:
  "(\<And>n c. map_of reg n = Some c \<Longrightarrow> module_builder_name c = n) \<Longrightarrow>
   builder_names (skipped_modules (classify_modules reg names self)) =
     builder_names (skipped_modules self) @
     filter (\<lambda>n. classification_of reg (target_system self) n = Skipped) names"
  by (induction names arbitrary: self)
     (auto simp: classification_of_def get_builder_def builder_names_def attach_def str_or_def
           dest: skip_reason_nonempty split: option.splits)

lemma classify_modules_active:
  "(\<And>n c. map_of reg n = Some c \<Longrightarrow> module_builder_name c = n) \<Longrightarrow>
   builder_names (active_modules (classify_modules reg names self)) =
     builder_names (active_modules self) @
     filter (\<lambda>n. classification_of reg (target_system self) n = Active) names"
  by (induction names arbitrary: self)
     (auto simp: classification_of_def get_builder_def builder_names_def attach_def str_or_def
           dest: skip_reason_nonempty split: option.splits)

lemma BuildSetup_init_accepted:
  assumes "validate spec = Inr ws"
  obtains self0 where
    "BuildSetup_init h fs pys reg spec modules broot dist target =
       Inr (classify_modules reg
              (resolved_module_names fs reg (TargetSystem h target) modules) self0, ws)"
    "target_system self0 = TargetSystem h target"
    "active_modules self0 = []" "skipped_modules self0 = []" "unknown_modules self0 = []"
  using assms by (simp add: BuildSetup_init_def Let_def)

lemma filter_classification_length:
  "length (filter (\<lambda>n. k n = Unknown) names) + length (filter (\<lambda>n. k n = Skipped) names) +
   length (filter (\<lambda>n. k n = Active) names) = length names"
proof (induction names)
  case Nil
  then show ?case by simp
next
  case (Cons n names)
  then show ?case by (cases "k n") simp_all
qed

lemma filter_classification_set:
  "set (filter (\<lambda>n. k n = Unknown) names) \<union> set (filter (\<lambda>n. k n = Skipped) names) \<union>
   set (filter (\<lambda>n. k n = Active) names) = set names"
proof -
  have "\<And>n. k n = Unknown \<or> k n = Skipped \<or> k n = Active"
    by (metis classification.exhaust)
  then show ?thesis by auto
qed

lemma dict_keys_dict_set:
  "dict_keys (dict_set d k v) = (if k \<in> set (dict_keys d) then dict_keys d else dict_keys d @ [k])"
  by (induction d) (force simp: dict_keys_def)+

lemma distinct_dict_set: "distinct (dict_keys d) \<Longrightarrow> distinct (dict_keys (dict_set d k v))"
  by (simp add: dict_keys_dict_set)

lemma foldl_declare_keys:
  "set (dict_keys (foldl declare_builder d cs)) = set (dict_keys d) \<union> module_builder_name ` set cs"
  by (induction cs arbitrary: d) (auto simp: declare_builder_def dict_keys_dict_set)

lemma foldl_declare_distinct:
  "distinct (dict_keys d) \<Longrightarrow> distinct (dict_keys (foldl declare_builder d cs))"
  by (induction cs arbitrary: d) (auto simp: declare_builder_def distinct_dict_set)

lemma declared_keys:
  "set (dict_keys (declared cs)) = module_builder_name ` set cs"
  "distinct (dict_keys (declared cs))"
  using foldl_declare_keys [of "[]" cs] foldl_declare_distinct [of "[]" cs]
  by (simp_all add: declared_def dict_keys_def)

lemma registered_not_unknown:
  "n \<in> set (dict_keys reg) \<Longrightarrow> classification_of reg t n \<noteq> Unknown"
proof -
  assume "n \<in> set (dict_keys reg)"
  then have "map_of reg n \<noteq> None"
    by (simp add: dict_keys_def map_of_eq_None_iff)
  then show ?thesis
    by (auto simp: classification_of_def split: option.splits)
qed

lemma BuildSetup_init_lists:
  assumes "validate spec = Inr ws"
  obtains self where
    "BuildSetup_init h fs pys (declared cs) spec modules broot dist target = Inr (self, ws)"
    "target_system self = TargetSystem h target"
    "unknown_modules self =
       filter (\<lambda>n. classification_of (declared cs) (TargetSystem h target) n = Unknown)
         (resolved_module_names fs (declared cs) (TargetSystem h target) modules)"
    "builder_names (skipped_modules self) =
       filter (\<lambda>n. classification_of (declared cs) (TargetSystem h target) n = Skipped)
         (resolved_module_names fs (declared cs) (TargetSystem h target) modules)"
    "builder_names (active_modules self) =
       filter (\<lambda>n. classification_of (declared cs) (TargetSystem h target) n = Active)
         (resolved_module_names fs (declared cs) (TargetSystem h target) modules)"
proof -
  let ?reg = "declared cs"
  let ?t = "TargetSystem h target"
  let ?names = "resolved_module_names fs ?reg ?t modules"
  obtain self0 where init:
    "BuildSetup_init h fs pys ?reg spec modules broot dist target =
       Inr (classify_modules ?reg ?names self0, ws)"
    and t0: "target_system self0 = ?t"
    and empty: "active_modules self0 = []" "skipped_modules self0 = []" "unknown_modules self0 = []"
    using assms by (rule BuildSetup_init_accepted)
  let ?self = "classify_modules ?reg ?names self0"
  let ?kind = "classification_of ?reg ?t"
  have t: "target_system ?self = ?t"
    using classify_modules_fixed [of ?reg ?names self0] t0 by simp
  have names: "\<And>n c. map_of ?reg n = Some c \<Longrightarrow> module_builder_name c = n"
    by (rule declared_name)
  have u: "unknown_modules ?self = filter (\<lambda>n. ?kind n = Unknown) ?names"
    using classify_modules_unknown [of ?reg ?names self0] empty t0 by simp
  have s: "builder_names (skipped_modules ?self) = filter (\<lambda>n. ?kind n = Skipped) ?names"
    using classify_modules_skipped [of ?reg ?names self0, OF names] empty t0
    by (simp add: builder_names_def)
  have a: "builder_names (active_modules ?self) = filter (\<lambda>n. ?kind n = Active) ?names"
    using classify_modules_active [of ?reg ?names self0, OF names] empty t0
    by (simp add: builder_names_def)
  from init t u s a show thesis by (rule that)
qed

text \<open>
  Claim C1. Whenever validation accepts the spec, the constructor returns a setup in which
  every resolved module name stands in exactly one of the three lists: the unknown list holds
  the names the registry does not know, the skipped list the builders of the registered names
  with a skip reason, the active list the builders of the other registered names, each in
  resolution order. No name is in two lists, every resolved name is in one of them, and the
  three lengths add up to the number of resolved names.
\<close>

theorem classification_partitions:
  assumes "validate spec = Inr ws"
  shows "\<exists>self. BuildSetup_init h fs pys (declared cs) spec modules broot dist target = Inr (self, ws) \<and>
     target_system self = TargetSystem h target \<and>
     (let names = resolved_module_names fs (declared cs) (target_system self) modules;
          kind = classification_of (declared cs) (target_system self);
          unknown = unknown_modules self;
          skipped = builder_names (skipped_modules self);
          active = builder_names (active_modules self)
      in unknown = filter (\<lambda>n. kind n = Unknown) names \<and>
         skipped = filter (\<lambda>n. kind n = Skipped) names \<and>
         active = filter (\<lambda>n. kind n = Active) names \<and>
         set unknown \<inter> set skipped = {} \<and>
         set unknown \<inter> set active = {} \<and>
         set skipped \<inter> set active = {} \<and>
         set unknown \<union> set skipped \<union> set active = set names \<and>
         length unknown + length skipped + length active = length names)"
proof -
  let ?t = "TargetSystem h target"
  let ?names = "resolved_module_names fs (declared cs) ?t modules"
  let ?kind = "classification_of (declared cs) ?t"
  obtain self where init:
    "BuildSetup_init h fs pys (declared cs) spec modules broot dist target = Inr (self, ws)"
    and t: "target_system self = ?t"
    and u: "unknown_modules self = filter (\<lambda>n. ?kind n = Unknown) ?names"
    and s: "builder_names (skipped_modules self) = filter (\<lambda>n. ?kind n = Skipped) ?names"
    and a: "builder_names (active_modules self) = filter (\<lambda>n. ?kind n = Active) ?names"
    using assms by (rule BuildSetup_init_lists)
  have len: "length (unknown_modules self) + length (builder_names (skipped_modules self)) +
             length (builder_names (active_modules self)) = length ?names"
    unfolding u s a by (rule filter_classification_length)
  have un: "set (unknown_modules self) \<union> set (builder_names (skipped_modules self)) \<union>
            set (builder_names (active_modules self)) = set ?names"
    unfolding u s a by (rule filter_classification_set)
  have d1: "set (unknown_modules self) \<inter> set (builder_names (skipped_modules self)) = {}"
    unfolding u s by auto
  have d2: "set (unknown_modules self) \<inter> set (builder_names (active_modules self)) = {}"
    unfolding u a by auto
  have d3: "set (builder_names (skipped_modules self)) \<inter>
            set (builder_names (active_modules self)) = {}"
    unfolding s a by auto
  show ?thesis
    apply (rule exI [of _ self])
    unfolding Let_def t
    using init t u s a len un d1 d2 d3 by simp
qed

text \<open>
  The partition at a concrete request on a macOS host: sqlite is built, gdbm (linux only) is
  skipped, foo is unknown.
\<close>

theorem classification_partitions_witness:
  "validate example_spec = Inr [] \<and>
   (\<exists>self. BuildSetup_init example_host example_fs [] (declared [Gdbm, Bdb, Sqlite]) example_spec
             (Str ''sqlite,foo,gdbm,sqlite'') ''/b'' ''/d'' None = Inr (self, []) \<and>
           unknown_modules self = [''foo''] \<and>
           builder_names (skipped_modules self) = [''gdbm''] \<and>
           builder_names (active_modules self) = [''sqlite''])"
proof -
  let ?t = "TargetSystem example_host None"
  let ?kind = "classification_of (declared [Gdbm, Bdb, Sqlite]) ?t"
  have v: "validate example_spec = Inr []"
    by code_simp
  have names: "resolved_module_names example_fs (declared [Gdbm, Bdb, Sqlite]) ?t
                 (Str ''sqlite,foo,gdbm,sqlite'') = [''sqlite'', ''foo'', ''gdbm'']"
    by code_simp
  have k: "?kind ''sqlite'' = Active" "?kind ''foo'' = Unknown" "?kind ''gdbm'' = Skipped"
    by code_simp+
  from classification_partitions [OF v, of example_host example_fs "[]" "[Gdbm, Bdb, Sqlite]"
      "Str ''sqlite,foo,gdbm,sqlite''" "''/b''" "''/d''" None]
  obtain self where
    "BuildSetup_init example_host example_fs [] (declared [Gdbm, Bdb, Sqlite]) example_spec
       (Str ''sqlite,foo,gdbm,sqlite'') ''/b'' ''/d'' None = Inr (self, [])"
    "target_system self = ?t"
    "unknown_modules self = filter (\<lambda>n. ?kind n = Unknown)
       (resolved_module_names example_fs (declared [Gdbm, Bdb, Sqlite]) ?t (Str ''sqlite,foo,gdbm,sqlite''))"
    "builder_names (skipped_modules self) = filter (\<lambda>n. ?kind n = Skipped)
       (resolved_module_names example_fs (declared [Gdbm, Bdb, Sqlite]) ?t (Str ''sqlite,foo,gdbm,sqlite''))"
    "builder_names (active_modules self) = filter (\<lambda>n. ?kind n = Active)
       (resolved_module_names example_fs (declared [Gdbm, Bdb, Sqlite]) ?t (Str ''sqlite,foo,gdbm,sqlite''))"
    unfolding Let_def by auto
  then show ?thesis
    unfolding names using v k by auto
qed

text \<open>
  Claim C4. Whenever validation accepts the spec: for the selection \<open>none\<close> the constructor
  returns a setup whose active, skipped and unknown lists are empty; for the selection \<open>all\<close>
  the resolved names are the keys of the registry, which are the names of all declared classes
  without repetition, the unknown list is empty, and the active and skipped builders together
  are exactly the registered names, each in one of the two lists.
\<close>

theorem none_and_all_selection:
  assumes "validate spec = Inr ws"
  shows
    "(\<exists>self. BuildSetup_init h fs pys (declared cs) spec (Str ''none'') broot dist target =
              Inr (self, ws) \<and>
            active_modules self = [] \<and> skipped_modules self = [] \<and> unknown_modules self = []) \<and>
     (\<exists>self. BuildSetup_init h fs pys (declared cs) spec (Str ''all'') broot dist target =
              Inr (self, ws) \<and>
            resolved_module_names fs (declared cs) (target_system self) (Str ''all'') =
              dict_keys (declared cs) \<and>
            set (dict_keys (declared cs)) = module_builder_name ` set cs \<and>
            distinct (dict_keys (declared cs)) \<and>
            unknown_modules self = [] \<and>
            set (builder_names (active_modules self)) \<union>
            set (builder_names (skipped_modules self)) = set (dict_keys (declared cs)) \<and>
            set (builder_names (active_modules self)) \<inter>
            set (builder_names (skipped_modules self)) = {} \<and>
            length (active_modules self) + length (skipped_modules self) =
              length (dict_keys (declared cs)))"
proof (rule conjI)
  let ?t = "TargetSystem h target"
  let ?kind = "classification_of (declared cs) ?t"
  obtain self where init:
    "BuildSetup_init h fs pys (declared cs) spec (Str ''none'') broot dist target = Inr (self, ws)"
    and u: "unknown_modules self = filter (\<lambda>n. ?kind n = Unknown)
              (resolved_module_names fs (declared cs) ?t (Str ''none''))"
    and s: "builder_names (skipped_modules self) = filter (\<lambda>n. ?kind n = Skipped)
              (resolved_module_names fs (declared cs) ?t (Str ''none''))"
    and a: "builder_names (active_modules self) = filter (\<lambda>n. ?kind n = Active)
              (resolved_module_names fs (declared cs) ?t (Str ''none''))"
    using assms by (rule BuildSetup_init_lists)
  have "resolved_module_names fs (declared cs) ?t (Str ''none'') = []"
    by (simp add: resolved_module_names_def)
  with u s a have "unknown_modules self = []" "skipped_modules self = []" "active_modules self = []"
    by (simp_all add: builder_names_def)
  with init show "\<exists>self. BuildSetup_init h fs pys (declared cs) spec (Str ''none'') broot dist target =
              Inr (self, ws) \<and>
            active_modules self = [] \<and> skipped_modules self = [] \<and> unknown_modules self = []"
    by blast
next
  let ?t = "TargetSystem h target"
  let ?kind = "classification_of (declared cs) ?t"
  let ?keys = "dict_keys (declared cs)"
  obtain self where init:
    "BuildSetup_init h fs pys (declared cs) spec (Str ''all'') broot dist target = Inr (self, ws)"
    and t: "target_system self = ?t"
    and u: "unknown_modules self = filter (\<lambda>n. ?kind n = Unknown)
              (resolved_module_names fs (declared cs) ?t (Str ''all''))"
    and s: "builder_names (skipped_modules self) = filter (\<lambda>n. ?kind n = Skipped)
              (resolved_module_names fs (declared cs) ?t (Str ''all''))"
    and a: "builder_names (active_modules self) = filter (\<lambda>n. ?kind n = Active)
              (resolved_module_names fs (declared cs) ?t (Str ''all''))"
    using assms by (rule BuildSetup_init_lists)
  have names: "resolved_module_names fs (declared cs) ?t (Str ''all'') = ?keys"
    by (simp add: resolved_module_names_def)
  have known: "\<And>n. n \<in> set ?keys \<Longrightarrow> ?kind n \<noteq> Unknown"
    by (rule registered_not_unknown)
  have u': "unknown_modules self = []"
    unfolding u names using known by (simp add: filter_empty_conv)
  have un: "set (unknown_modules self) \<union> set (builder_names (skipped_modules self)) \<union>
            set (builder_names (active_modules self)) = set ?keys"
    unfolding u s a names by (rule filter_classification_set)
  have len: "length (unknown_modules self) + length (builder_names (skipped_modules self)) +
             length (builder_names (active_modules self)) = length ?keys"
    unfolding u s a names by (rule filter_classification_length)
  have d: "set (builder_names (active_modules self)) \<inter>
           set (builder_names (skipped_modules self)) = {}"
    unfolding s a by auto
  have un': "set (builder_names (active_modules self)) \<union>
             set (builder_names (skipped_modules self)) = set ?keys"
    using un u' by auto
  have len': "length (active_modules self) + length (skipped_modules self) = length ?keys"
    using len u' by (simp add: builder_names_def)
  show "\<exists>self. BuildSetup_init h fs pys (declared cs) spec (Str ''all'') broot dist target =
              Inr (self, ws) \<and>
            resolved_module_names fs (declared cs) (target_system self) (Str ''all'') =
              dict_keys (declared cs) \<and>
            set (dict_keys (declared cs)) = module_builder_name ` set cs \<and>
            distinct (dict_keys (declared cs)) \<and>
            unknown_modules self = [] \<and>
            set (builder_names (active_modules self)) \<union>
            set (builder_names (skipped_modules self)) = set (dict_keys (declared cs)) \<and>
            set (builder_names (active_modules self)) \<inter>
            set (builder_names (skipped_modules self)) = {} \<and>
            length (active_modules self) + length (skipped_modules self) =
              length (dict_keys (declared cs))"
    apply (rule exI [of _ self])
    using init names t declared_keys [of cs] u' un' d len' by simp
qed

theorem none_and_all_selection_witness:
  "validate example_spec = Inr [] \<and>
   (\<exists>self. BuildSetup_init example_host example_fs [] (declared [Gdbm, Bdb, Sqlite]) example_spec
             (Str ''none'') ''/b'' ''/d'' None = Inr (self, []) \<and>
           active_modules self = [] \<and> skipped_modules self = [] \<and> unknown_modules self = []) \<and>
   (\<exists>self. BuildSetup_init example_host example_fs [] (declared [Gdbm, Bdb, Sqlite]) example_spec
             (Str ''all'') ''/b'' ''/d'' None = Inr (self, []) \<and>
           unknown_modules self = [] \<and>
           set (builder_names (active_modules self)) \<union>
           set (builder_names (skipped_modules self)) = {''gdbm'', ''bdb'', ''sqlite''})"
proof -
  have v: "validate example_spec = Inr []"
    by code_simp
  have keys: "dict_keys (declared [Gdbm, Bdb, Sqlite]) = [''gdbm'', ''bdb'', ''sqlite'']"
    by code_simp
  show ?thesis
    using v none_and_all_selection [OF v, of example_host example_fs "[]" "[Gdbm, Bdb, Sqlite]"
        "''/b''" "''/d''" None]
    unfolding keys by auto
qed


section \<open>Explicit selections\<close>

lemma add_leaf_first_occurrences:
  "add_leaf (first_occurrences zs) s = first_occurrences (zs @ filter (\<lambda>s. s \<noteq> []) [s])"
  by (simp add: add_leaf_def first_occurrences_def)

lemma foldl_add_leaf:
  "foldl add_leaf (first_occurrences zs) xs = first_occurrences (zs @ filter (\<lambda>s. s \<noteq> []) xs)"
proof (induction xs arbitrary: zs)
  case Nil
  then show ?case by simp
next
  case (Cons x xs)
  have "foldl add_leaf (first_occurrences zs) (x # xs) =
        foldl add_leaf (first_occurrences (zs @ filter (\<lambda>s. s \<noteq> []) [x])) xs"
    by (simp only: foldl_Cons add_leaf_first_occurrences)
  also have "\<dots> = first_occurrences ((zs @ filter (\<lambda>s. s \<noteq> []) [x]) @ filter (\<lambda>s. s \<noteq> []) xs)"
    by (rule Cons.IH)
  finally show ?case by simp
qed

lemma flatten_into_requested:
  "flatten_into (Some CHR '','') (first_occurrences zs) v =
     first_occurrences (zs @ filter (\<lambda>s. s \<noteq> []) (requested_names v))"
proof (induction v arbitrary: zs)
  case PyNone
  then show ?case by simp
next
  case (Str s)
  then show ?case by (simp add: foldl_add_leaf)
next
  case (Seq xs)
  then show ?case
  proof (induction xs arbitrary: zs)
    case Nil
    then show ?case by simp
  next
    case (Cons x xs)
    have step: "flatten_into (Some CHR '','') (first_occurrences zs) x =
                first_occurrences (zs @ filter (\<lambda>s. s \<noteq> []) (requested_names x))"
      using Cons.prems by simp
    have rest: "flatten_into (Some CHR '','') (first_occurrences zs') (Seq xs) =
                first_occurrences (zs' @ filter (\<lambda>s. s \<noteq> []) (requested_names (Seq xs)))" for zs'
      using Cons.IH Cons.prems by simp
    show ?case
      using rest [of "zs @ filter (\<lambda>s. s \<noteq> []) (requested_names x)"]
      by (simp add: step)
  qed
qed

lemma flattened_requested:
  "flattened (Some CHR '','') v = first_occurrences (filter (\<lambda>s. s \<noteq> []) (requested_names v))"
  using flatten_into_requested [of "[]" v]
  by (simp add: flattened_def first_occurrences_def)

lemma first_occurrences_facts:
  "distinct (first_occurrences xs)" "set (first_occurrences xs) = set xs"
  by (simp_all add: first_occurrences_def)


text \<open>
  Claim C5. Whenever validation accepts the spec and the selection is neither \<open>none\<close> nor
  \<open>all\<close> nor falsy, the resolved names are the names the selection spells out (its strings,
  nested or not, cut at the commas) without the empty entries and without repetitions, each
  name where it first occurs. The entries of the three classification lists are then distinct
  too, and are exactly the resolved names: a name requested twice is entered once.
\<close>

theorem explicit_selection:
  assumes "validate spec = Inr ws"
    and "modules \<noteq> Str ''none''" and "modules \<noteq> Str ''all''" and "truthy modules"
  shows "\<exists>self. BuildSetup_init h fs pys (declared cs) spec modules broot dist target = Inr (self, ws) \<and>
     (let names = resolved_module_names fs (declared cs) (target_system self) modules;
          entries = unknown_modules self @ builder_names (skipped_modules self) @
                    builder_names (active_modules self)
      in names = first_occurrences (filter (\<lambda>s. s \<noteq> []) (requested_names modules)) \<and>
         distinct names \<and>
         set names = set (requested_names modules) - {[]} \<and>
         distinct entries \<and>
         set entries = set names)"
proof -
  let ?t = "TargetSystem h target"
  let ?names = "resolved_module_names fs (declared cs) ?t modules"
  let ?kind = "classification_of (declared cs) ?t"
  obtain self where init:
    "BuildSetup_init h fs pys (declared cs) spec modules broot dist target = Inr (self, ws)"
    and t: "target_system self = ?t"
    and u: "unknown_modules self = filter (\<lambda>n. ?kind n = Unknown) ?names"
    and s: "builder_names (skipped_modules self) = filter (\<lambda>n. ?kind n = Skipped) ?names"
    and a: "builder_names (active_modules self) = filter (\<lambda>n. ?kind n = Active) ?names"
    using assms(1) by (rule BuildSetup_init_lists)
  have names: "?names = first_occurrences (filter (\<lambda>s. s \<noteq> []) (requested_names modules))"
    using assms(2-4) by (simp add: resolved_module_names_def flattened_requested)
  have dn: "distinct ?names"
    unfolding names by (rule first_occurrences_facts)
  have sn: "set ?names = set (requested_names modules) - {[]}"
    unfolding names by (auto simp: first_occurrences_facts)
  have de: "distinct (unknown_modules self @ builder_names (skipped_modules self) @
                      builder_names (active_modules self))"
    unfolding u s a using dn by auto
  have "set (unknown_modules self) \<union> set (builder_names (skipped_modules self)) \<union>
        set (builder_names (active_modules self)) = set ?names"
    unfolding u s a by (rule filter_classification_set)
  then have se: "set (unknown_modules self @ builder_names (skipped_modules self) @
                      builder_names (active_modules self)) = set ?names"
    by auto
  show ?thesis
    apply (rule exI [of _ self])
    unfolding Let_def t
    using init names dn sn de se by simp
qed


theorem explicit_selection_witness:
  "validate example_spec = Inr [] \<and>
   Str ''sqlite,foo,,gdbm,sqlite'' \<noteq> Str ''none'' \<and> Str ''sqlite,foo,,gdbm,sqlite'' \<noteq> Str ''all'' \<and>
   truthy (Str ''sqlite,foo,,gdbm,sqlite'') \<and>
   requested_names (Str ''sqlite,foo,,gdbm,sqlite'') = [''sqlite'', ''foo'', [], ''gdbm'', ''sqlite''] \<and>
   (\<exists>self. BuildSetup_init example_host example_fs [] (declared [Gdbm, Bdb, Sqlite]) example_spec
             (Str ''sqlite,foo,,gdbm,sqlite'') ''/b'' ''/d'' None = Inr (self, []) \<and>
           resolved_module_names example_fs (declared [Gdbm, Bdb, Sqlite]) (target_system self)
             (Str ''sqlite,foo,,gdbm,sqlite'') = [''sqlite'', ''foo'', ''gdbm''] \<and>
           distinct (unknown_modules self @ builder_names (skipped_modules self) @
                     builder_names (active_modules self)) \<and>
           set (unknown_modules self @ builder_names (skipped_modules self) @
                builder_names (active_modules self)) = {''sqlite'', ''foo'', ''gdbm''})"
proof -
  let ?m = "Str ''sqlite,foo,,gdbm,sqlite''"
  have v: "validate example_spec = Inr []"
    by code_simp
  have r: "requested_names ?m = [''sqlite'', ''foo'', [], ''gdbm'', ''sqlite'']"
    by code_simp
  have f: "first_occurrences (filter (\<lambda>s. s \<noteq> []) (requested_names ?m)) =
           [''sqlite'', ''foo'', ''gdbm'']"
    by code_simp
  have n: "?m \<noteq> Str ''none''" "?m \<noteq> Str ''all''" "truthy ?m"
    by simp_all
  from explicit_selection [OF v n, of example_host example_fs "[]" "[Gdbm, Bdb, Sqlite]"
      "''/b''" "''/d''" None]
  obtain self where
    i: "BuildSetup_init example_host example_fs [] (declared [Gdbm, Bdb, Sqlite]) example_spec
          ?m ''/b'' ''/d'' None = Inr (self, [])"
    and e: "resolved_module_names example_fs (declared [Gdbm, Bdb, Sqlite]) (target_system self) ?m =
          first_occurrences (filter (\<lambda>s. s \<noteq> []) (requested_names ?m))"
    and d: "distinct (unknown_modules self @ builder_names (skipped_modules self) @
                      builder_names (active_modules self))"
    and s: "set (unknown_modules self @ builder_names (skipped_modules self) @
                 builder_names (active_modules self)) =
            set (resolved_module_names example_fs (declared [Gdbm, Bdb, Sqlite]) (target_system self) ?m)"
    unfolding Let_def by blast
  have e': "resolved_module_names example_fs (declared [Gdbm, Bdb, Sqlite]) (target_system self) ?m =
            [''sqlite'', ''foo'', ''gdbm'']"
    using e f by (rule trans)
  have s': "set (unknown_modules self @ builder_names (skipped_modules self) @
                 builder_names (active_modules self)) = {''sqlite'', ''foo'', ''gdbm''}"
    unfolding s e' by simp
  from i e' d s' have "\<exists>self. BuildSetup_init example_host example_fs [] (declared [Gdbm, Bdb, Sqlite]) example_spec
             ?m ''/b'' ''/d'' None = Inr (self, []) \<and>
           resolved_module_names example_fs (declared [Gdbm, Bdb, Sqlite]) (target_system self)
             ?m = [''sqlite'', ''foo'', ''gdbm''] \<and>
           distinct (unknown_modules self @ builder_names (skipped_modules self) @
                     builder_names (active_modules self)) \<and>
           set (unknown_modules self @ builder_names (skipped_modules self) @
                builder_names (active_modules self)) = {''sqlite'', ''foo'', ''gdbm''}"
    by blast
  with v n r show ?thesis by blast
qed

section \<open>Properties of the environment setup\<close>

lemma join_eq_Nil: "[] \<notin> set xs \<Longrightarrow> join d xs = [] \<longleftrightarrow> xs = []"
  by (induction d xs rule: join.induct) auto

lemma fragments_nonempty: "[] \<notin> set (fragments v)"
  by (induction v) auto

lemma joined_eq_Nil: "joined d v = [] \<longleftrightarrow> fragments v = []"
  by (simp add: joined_def join_eq_Nil fragments_nonempty)

lemma fragments_flat:
  "fragments (Seq (map (case_option PyNone Str) ys)) = filter (\<lambda>s. s \<noteq> []) (List.map_filter id ys)"
  by (induction ys) (auto simp: List.map_filter_simps split: option.splits)

lemma exported_env_vars_sorted:
  "sorted (exported_env_vars attrs)" "distinct (exported_env_vars attrs)"
  "set (exported_env_vars attrs) = {n \<in> fst ` set attrs. startswith n ''xenv_''}"
  by (auto simp: exported_env_vars_def dir_names_def intro: sorted_filter [where f = id, simplified])

lemma foldl_setenv:
  "foldl (\<lambda>env fn. case f fn of None \<Rightarrow> env | Some (k, v) \<Rightarrow> env(k \<mapsto> v)) env fns =
     env ++ map_of (rev (List.map_filter f fns))"
proof (induction fns arbitrary: env)
  case Nil
  then show ?case by (simp add: List.map_filter_simps)
next
  case (Cons fn fns)
  show ?case
  proof (cases "f fn")
    case None
    then show ?thesis using Cons.IH [of env] by (simp add: List.map_filter_simps)
  next
    case (Some kv)
    obtain k v where kv: "kv = (k, v)" by (cases kv)
    have "env(k \<mapsto> v) ++ map_of (rev (List.map_filter f fns)) =
          env ++ map_of (rev (List.map_filter f fns) @ [(k, v)])"
      by (rule ext) (simp add: map_add_def split: option.splits)
    moreover have "foldl (\<lambda>env fn. case f fn of None \<Rightarrow> env | Some (k, v) \<Rightarrow> env(k \<mapsto> v)) env (fn # fns) =
          foldl (\<lambda>env fn. case f fn of None \<Rightarrow> env | Some (k, v) \<Rightarrow> env(k \<mapsto> v)) (env(k \<mapsto> v)) fns"
      using Some kv by simp
    moreover have "List.map_filter f (fn # fns) = (k, v) # List.map_filter f fns"
      using Some kv by (simp add: List.map_filter_simps)
    ultimately show ?thesis using Cons.IH [of "env(k \<mapsto> v)"]
      by (simp only: rev.simps)
  qed
qed

lemma setup_env_final:
  "setup_env fs attrs env =
     env ++ map_of (rev (List.map_filter (export_of fs attrs) (exported_env_vars attrs)))"
proof -
  have "setup_step fs attrs = (\<lambda>env fn. case export_of fs attrs fn of None \<Rightarrow> env | Some (k, v) \<Rightarrow> env(k \<mapsto> v))"
    by (intro ext) (simp add: setup_step_def setenv_def split: option.splits)
  then show ?thesis
    unfolding setup_env_def by (simp only: foldl_setenv)
qed

lemma export_of_Method:
  "map_of attrs fn = Some (Method out) \<Longrightarrow>
   export_of fs attrs fn =
     (if fragments out = [] then None
      else Some (upper (drop 5 fn),
                 join (if endswith (upper (drop 5 fn)) ''PATH'' then pathsep fs else '' '')
                   (fragments out)))"
  using joined_eq_Nil by (simp add: export_of_def Let_def joined_def)

text \<open>
  Claim C3. The exporters are visited in increasing name order, each once, and are exactly the
  attribute names that start with \<open>xenv_\<close>. An exporter method whose output has no non-empty
  fragment sets nothing; otherwise it sets the variable named by the upper-cased rest of its
  name to its non-empty fragments, in yield order, joined by \<open>os.pathsep\<close> when that name ends
  in PATH and by one space otherwise (of a flat output, the fragments kept are the strings
  that are neither \<open>None\<close> nor empty). After the loop the environment is the prior one
  overridden by the variables set, a later exporter winning: a variable no exporter sets keeps
  its prior value, and no variable is removed.
\<close>

theorem setup_env_exports:
  "sorted (exported_env_vars attrs) \<and> distinct (exported_env_vars attrs) \<and>
   set (exported_env_vars attrs) = {n \<in> fst ` set attrs. startswith n ''xenv_''} \<and>
   (\<forall>fn out. map_of attrs fn = Some (Method out) \<longrightarrow>
      export_of fs attrs fn =
        (if fragments out = [] then None
         else Some (upper (drop 5 fn),
                    join (if endswith (upper (drop 5 fn)) ''PATH'' then pathsep fs else '' '')
                      (fragments out)))) \<and>
   (\<forall>ys. fragments (Seq (map (case_option PyNone Str) ys)) =
           filter (\<lambda>s. s \<noteq> []) (List.map_filter id ys)) \<and>
   setup_env fs attrs env =
     env ++ map_of (rev (List.map_filter (export_of fs attrs) (exported_env_vars attrs))) \<and>
   dom env \<subseteq> dom (setup_env fs attrs env)"
  using exported_env_vars_sorted [of attrs] export_of_Method [of attrs _ _ fs]
    fragments_flat setup_env_final [of fs attrs env]
  by (simp add: subset_iff domIff)

theorem setup_env_exports_witness:
  "map_of example_attrs ''xenv_cpath'' =
     Some (Method (Seq [Str ''/d/include'', PyNone, PyNone, Str ''/d/include/openssl''])) \<and>
   export_of deps_fs example_attrs ''xenv_cpath'' = Some (''CPATH'', ''/d/include:/d/include/openssl'') \<and>
   map_of example_attrs ''xenv_cflags'' = Some (Method (Seq [Str ''-O2'', Str [], PyNone, Str ''-g''])) \<and>
   export_of deps_fs example_attrs ''xenv_cflags'' = Some (''CFLAGS'', ''-O2 -g'') \<and>
   map_of example_attrs ''xenv_library_path'' = Some (Method (Seq [PyNone])) \<and>
   export_of deps_fs example_attrs ''xenv_library_path'' = None \<and>
   setup_env deps_fs example_attrs prior_env ''CPATH'' = Some ''/d/include:/d/include/openssl'' \<and>
   setup_env deps_fs example_attrs prior_env ''LIBRARY_PATH'' = Some ''/old'' \<and>
   setup_env deps_fs example_attrs prior_env ''PATH'' = Some ''/d/bin:/usr/bin:/bin''"
proof -
  let ?cpath = "Seq [Str ''/d/include'', PyNone, PyNone, Str ''/d/include/openssl'']"
  let ?cflags = "Seq [Str ''-O2'', Str [], PyNone, Str ''-g'']"
  have m: "map_of example_attrs ''xenv_cpath'' = Some (Method ?cpath)"
    "map_of example_attrs ''xenv_cflags'' = Some (Method ?cflags)"
    "map_of example_attrs ''xenv_library_path'' = Some (Method (Seq [PyNone]))"
    by code_simp+
  have f: "fragments ?cpath = [''/d/include'', ''/d/include/openssl'']"
    "fragments ?cflags = [''-O2'', ''-g'']" "fragments (Seq [PyNone]) = []"
    by simp_all
  have n: "upper ''cpath'' = ''CPATH''" "upper ''cflags'' = ''CFLAGS''"
    "endswith ''CPATH'' ''PATH''" "\<not> endswith ''CFLAGS'' ''PATH''" "pathsep deps_fs = '':''"
    by code_simp+
  have e: "(prior_env ++ map_of (rev (List.map_filter (export_of deps_fs example_attrs) (exported_env_vars example_attrs))))
             ''CPATH'' = Some ''/d/include:/d/include/openssl''"
    "(prior_env ++ map_of (rev (List.map_filter (export_of deps_fs example_attrs) (exported_env_vars example_attrs))))
             ''LIBRARY_PATH'' = Some ''/old''"
    "(prior_env ++ map_of (rev (List.map_filter (export_of deps_fs example_attrs) (exported_env_vars example_attrs))))
             ''PATH'' = Some ''/d/bin:/usr/bin:/bin''"
    by code_simp+
  note t = setup_env_exports [of example_attrs deps_fs prior_env]
  from t have ex: "\<And>fn out. map_of example_attrs fn = Some (Method out) \<Longrightarrow>
      export_of deps_fs example_attrs fn =
        (if fragments out = [] then None
         else Some (upper (drop 5 fn),
                    join (if endswith (upper (drop 5 fn)) ''PATH'' then pathsep deps_fs else '' '')
                      (fragments out)))"
    by blast
  from ex [OF m(1)] have c1: "export_of deps_fs example_attrs ''xenv_cpath'' = Some (''CPATH'', ''/d/include:/d/include/openssl'')"
    by (simp add: f n)
  from ex [OF m(2)] have c2: "export_of deps_fs example_attrs ''xenv_cflags'' = Some (''CFLAGS'', ''-O2 -g'')"
    by (simp add: f n)
  from ex [OF m(3)] have c3: "export_of deps_fs example_attrs ''xenv_library_path'' = None"
    by (simp add: f)
  from t have c4: "setup_env deps_fs example_attrs prior_env =
      prior_env ++ map_of (rev (List.map_filter (export_of deps_fs example_attrs) (exported_env_vars example_attrs)))"
    by blast
  show ?thesis
    using m c1 c2 c3 e unfolding c4 by simp
qed

section \<open>Properties of the log files\<close>

lemma get_logs_path_no_faults:
  "get_logs_path no_faults self name rt =
     (Inr (path_join (logs_folder self) (log_basename (log_counter rt + 1) name)),
      rt\<lparr>calls := calls rt @ [Ensure_folder (logs_folder self) False,
                                Delete (path_join (logs_folder self)
                                          (log_basename (log_counter rt + 1) name))],
         log_counter := log_counter rt + 1\<rparr>)"
  by (simp add: get_logs_path_def invoke_def no_faults_def Let_def)

lemma allocated_logs_length:
  "length (allocated_logs no_faults self names rt) = length names"
  by (induction names arbitrary: rt) (simp_all add: get_logs_path_no_faults)

lemma allocated_logs_nth:
  "i < length names \<Longrightarrow>
   allocated_logs no_faults self names rt ! i =
     path_join (logs_folder self) (log_basename (log_counter rt + i + 1) (names ! i))"
proof (induction names arbitrary: rt i)
  case Nil
  then show ?case by simp
next
  case (Cons name names)
  show ?case
  proof (cases i)
    case 0
    then show ?thesis by (simp add: get_logs_path_no_faults)
  next
    case (Suc j)
    then have "j < length names" using Cons.prems by simp
    then show ?thesis using Cons.IH [of j] Suc by (simp add: get_logs_path_no_faults)
  qed
qed

lemma hundred_logs_nth:
  "i < 100 \<Longrightarrow> hundred_logs ! i = path_join (logs_folder (built ''none'' None)) (log_basename (i + 1) ''m'')"
  by (simp add: hundred_logs_def allocated_logs_nth start_def)

lemma digit_char_code: "d < 10 \<Longrightarrow> of_char (digit_char d) = (48 + d :: nat)"
proof -
  assume "d < 10"
  then have "d = 0 \<or> d = 1 \<or> d = 2 \<or> d = 3 \<or> d = 4 \<or> d = 5 \<or> d = 6 \<or> d = 7 \<or>
      d = 8 \<or> d = 9"
    by arith
  then show ?thesis
    by (elim disjE) (simp_all add: digit_char_def)
qed

lemma digit_char_less: "d < e \<Longrightarrow> e < 10 \<Longrightarrow> digit_char d < digit_char e"
  by (simp add: less_char_def digit_char_code)

lemma zero_padded2_small:
  "n < 100 \<Longrightarrow> zero_padded2 n = [digit_char (n div 10), digit_char (n mod 10)]"
proof (cases "n < 10")
  case True
  then have "decimal n = [digit_char n]"
    by (simp add: decimal.simps)
  then show ?thesis using True by (simp add: zero_padded2_def digit_char_def)
next
  case False
  assume "n < 100"
  then have "n div 10 < 10" by simp
  then have "decimal (n div 10) = [digit_char (n div 10)]"
    by (simp add: decimal.simps)
  then have "decimal n = [digit_char (n div 10), digit_char (n mod 10)]"
    using False by (subst decimal.simps) simp
  then show ?thesis by (simp add: zero_padded2_def)
qed

lemma log_basename_ordered:
  assumes "i < j" and "j < 100"
  shows "log_basename i a < log_basename j b"
proof -
  have i: "i < 100" using assms by simp
  have d: "i div 10 < 10" "j div 10 < 10" "i mod 10 < 10" "j mod 10 < 10"
    using assms by simp_all
  have "i div 10 < j div 10 \<or> (i div 10 = j div 10 \<and> i mod 10 < j mod 10)"
    using assms(1) by (metis div_le_mono le_neq_implies_less less_imp_le_nat mod_div_decomp
        nat_add_left_cancel_less not_less)
  then have "[digit_char (i div 10), digit_char (i mod 10)] @ ''-'' @ a @ ''.log'' <
             [digit_char (j div 10), digit_char (j mod 10)] @ ''-'' @ b @ ''.log''"
    using d digit_char_less by auto
  then show ?thesis
    using i assms(2) by (simp add: log_basename_def zero_padded2_small)
qed

lemma append_less_append: "(xs :: 'a :: linorder list) @ ys < xs @ zs \<longleftrightarrow> ys < zs"
  by (induction xs) simp_all

text \<open>
  Up to ninety-nine compilations the names do what the docstring says: the log files come out
  in strictly increasing order, whatever the modules are called.
\<close>

lemma first_logs_sorted:
  assumes "length names < 100"
  shows "sorted_wrt (<) (allocated_logs no_faults self names start)"
proof -
  let ?logs = "allocated_logs no_faults self names start"
  have "?logs ! i < ?logs ! j" if "i < j" "j < length ?logs" for i j
  proof -
    have j: "j < length names" using that by (simp add: allocated_logs_length)
    then have i: "i < length names" using that by simp
    have "log_basename (i + 1) (names ! i) < log_basename (j + 1) (names ! j)"
      using that j assms by (intro log_basename_ordered) simp_all
    then show ?thesis
      using i j by (simp add: allocated_logs_nth start_def path_join_def append_less_append)
  qed
  then show ?thesis
    by (simp add: sorted_wrt_iff_nth_less)
qed

text \<open>Whatever the modules are called, the hundredth name sorts before the eleventh.\<close>

lemma hundredth_sorts_early: "log_basename 100 a < log_basename 11 b"
proof -
  have "zero_padded2 100 = ''100''" "zero_padded2 11 = ''11''"
    by code_simp+
  then show ?thesis
    by (simp add: log_basename_def)
qed

text \<open>
  Claim C6 fails on the code from the hundredth compilation on. The hundredth log file of a
  setup is named \<open>100-m.log\<close>; it sorts before \<open>11-m.log\<close>, allocated eighty-nine
  compilations earlier, so the sorted list of the log files is not the list in execution
  order.
\<close>

theorem log_order_breaks_at_hundred:
  "length hundred_logs = 100 \<and>
   hundred_logs ! 10 = ''/b/cpython-3.9.6/logs/11-m.log'' \<and>
   hundred_logs ! 98 = ''/b/cpython-3.9.6/logs/99-m.log'' \<and>
   hundred_logs ! 99 = ''/b/cpython-3.9.6/logs/100-m.log'' \<and>
   hundred_logs ! 99 < hundred_logs ! 10 \<and>
   sort hundred_logs \<noteq> hundred_logs"
proof -
  have len: "length hundred_logs = 100"
    by (simp add: hundred_logs_def allocated_logs_length)
  have f: "logs_folder (built ''none'' None) = ''/b/cpython-3.9.6/logs''"
    by code_simp
  have b: "log_basename 11 ''m'' = ''11-m.log''" "log_basename 99 ''m'' = ''99-m.log''"
    "log_basename 100 ''m'' = ''100-m.log''"
    by code_simp+
  have n10: "hundred_logs ! 10 = ''/b/cpython-3.9.6/logs/11-m.log''"
    using hundred_logs_nth [of 10] by (simp add: f b path_join_def)
  have n98: "hundred_logs ! 98 = ''/b/cpython-3.9.6/logs/99-m.log''"
    using hundred_logs_nth [of 98] by (simp add: f b path_join_def)
  have n99: "hundred_logs ! 99 = ''/b/cpython-3.9.6/logs/100-m.log''"
    using hundred_logs_nth [of 99] by (simp add: f b path_join_def)
  have lt: "hundred_logs ! 99 < hundred_logs ! 10"
    unfolding n10 n99 by code_simp
  have "\<not> sorted hundred_logs"
  proof
    assume "sorted hundred_logs"
    then have "hundred_logs ! 10 \<le> hundred_logs ! 99"
      using len by (simp add: sorted_nth_mono)
    with lt show False by simp
  qed
  then have ne: "sort hundred_logs \<noteq> hundred_logs"
    by (metis sorted_sort)
  from len n10 n98 n99 lt ne show ?thesis by blast
qed

section \<open>Properties of the compile pipeline\<close>

text \<open>The example setups are what the constructor returns.\<close>

lemma built_is_constructed:
  "BuildSetup_init example_host example_fs (declared [Cpython]) (declared [Gdbm, Bdb, Sqlite])
     example_spec (Str sel) ''/b'' ''/d'' tgt = Inr (built sel tgt, [])"
proof -
  have "validate example_spec = Inr []"
    by code_simp
  then show ?thesis
    by (simp add: built_def BuildSetup_init_def Let_def)
qed

text \<open>
  Claim C2, as amended. When the unknown list is not empty, \<open>compile\<close> makes one call, the
  one that ensures the build folder (cleaning it unless in debug mode), and no other: no
  builder is compiled, neither an active module nor the interpreter, and the setup is
  unchanged. Unless that call fails, the result is the abort that names all unknown modules.
\<close>

theorem unknown_modules_abort:
  "unknown_modules self \<noteq> [] \<Longrightarrow>
     (case BuildSetup_compile faults fs self x_debug rt of
        (r, self', rt') \<Rightarrow>
          calls rt' = calls rt @ [Ensure_folder (build_folder self) (\<not> x_debug)] \<and>
          self' = self \<and>
          (faults (Ensure_folder (build_folder self) (\<not> x_debug)) = None \<longrightarrow>
             r = Some (Aborted (Unknown_modules (unknown_modules self)))))"
  by (auto simp: BuildSetup_compile_def invoke_def split: option.splits)

theorem unknown_modules_abort_witness:
  "unknown_modules (built ''sqlite,foo,bar'' None) \<noteq> [] \<and>
   no_faults (Ensure_folder (build_folder (built ''sqlite,foo,bar'' None)) (\<not> True)) = None \<and>
   (case BuildSetup_compile no_faults example_fs (built ''sqlite,foo,bar'' None) True start of
      (r, self', rt') \<Rightarrow>
        calls rt' = [Ensure_folder ''/b/cpython-3.9.6'' False] \<and>
        r = Some (Aborted (Unknown_modules [''foo'', ''bar''])))"
proof -
  have u: "unknown_modules (built ''sqlite,foo,bar'' None) = [''foo'', ''bar'']"
    by code_simp
  have b: "build_folder (built ''sqlite,foo,bar'' None) = ''/b/cpython-3.9.6''"
    by code_simp
  have n: "unknown_modules (built ''sqlite,foo,bar'' None) \<noteq> []"
    unfolding u by simp
  show ?thesis
    using n unknown_modules_abort [where faults = no_faults and fs = example_fs and x_debug = True
        and rt = start, OF n]
    by (simp add: u b no_faults_def start_def split: prod.splits)
qed

text \<open>
  The claim as stated fails: with unknown modules and outside debug mode, the build folder is
  ensured and cleaned before the abort.
\<close>

theorem unknown_modules_folder_counterexample:
  "unknown_modules (built ''sqlite,foo,bar'' None) = [''foo'', ''bar''] \<and>
   fst (BuildSetup_compile no_faults example_fs (built ''sqlite,foo,bar'' None) False start) =
     Some (Aborted (Unknown_modules [''foo'', ''bar''])) \<and>
   calls (snd (snd (BuildSetup_compile no_faults example_fs (built ''sqlite,foo,bar'' None) False start))) =
     [Ensure_folder ''/b/cpython-3.9.6'' True]"
  by code_simp
lemma get_logs_path_shape:
  assumes "get_logs_path faults self name rt = (r, rt1)"
  obtains pre where "calls rt1 = calls rt @ pre" "hook_calls pre = []" "handler_calls pre = []"
    "root_handlers rt1 = root_handlers rt" "next_object rt1 = next_object rt"
  using assms
  by (auto simp: get_logs_path_def invoke_def Let_def hook_calls_def handler_calls_def
           split: option.splits)

lemma captured_logs_enter_shape:
  assumes "captured_logs_enter faults fs self m rt = (r, m1, rt1)"
  obtains pre where "calls rt1 = calls rt @ pre" "hook_calls pre = []"
    "cls m1 = cls m" "m_build_folder m1 = m_build_folder m"
    "(handler_calls pre = [] \<and> log_handler m1 = log_handler m \<and> root_handlers rt1 = root_handlers rt) \<or>
     (r = None \<and> handler_calls pre = [Add_handler (next_object rt)] \<and>
      log_handler m1 = Some (next_object rt) \<and>
      root_handlers rt1 = (if next_object rt \<in> set (root_handlers rt) then root_handlers rt
                           else root_handlers rt @ [next_object rt]))"
proof -
  obtain g rt0 where g: "get_logs_path faults self (module_builder_name (cls m)) rt = (g, rt0)"
    by (cases "get_logs_path faults self (module_builder_name (cls m)) rt")
  then obtain pre0 where pre0: "calls rt0 = calls rt @ pre0" "hook_calls pre0 = []"
    "handler_calls pre0 = []" "root_handlers rt0 = root_handlers rt" "next_object rt0 = next_object rt"
    by (rule get_logs_path_shape)
  show thesis
  proof (cases g)
    case (Inl f)
    with assms g have "m1 = m" "rt1 = rt0"
      by (simp_all add: captured_logs_enter_def)
    with pre0 show thesis by (intro that [of pre0]) simp_all
  next
    case (Inr path)
    show thesis
    proof (cases "is_dir fs (logs_folder self)")
      case False
      with assms g Inr have "m1 = m" "rt1 = rt0"
        by (simp_all add: captured_logs_enter_def)
      with pre0 show thesis by (intro that [of pre0]) simp_all
    next
      case True
      show thesis
      proof (cases "faults (File_handler path)")
        case (Some f)
        with assms g Inr True have "m1 = m" "rt1 = rt0\<lparr>calls := calls rt0 @ [File_handler path]\<rparr>"
          by (simp_all add: captured_logs_enter_def invoke_def)
        with pre0 show thesis
          by (intro that [of "pre0 @ [File_handler path]"])
             (simp_all add: hook_calls_def handler_calls_def)
      next
        case None
        with assms g Inr True have r: "r = None" and m1: "m1 = m\<lparr>log_handler := Some (next_object rt0)\<rparr>"
          and rt1: "rt1 = addHandler (next_object rt0)
                     (rt0\<lparr>calls := calls rt0 @ [File_handler path], next_object := next_object rt0 + 1\<rparr>)"
          by (simp_all add: captured_logs_enter_def invoke_def Let_def)
        show thesis
          using pre0 r m1 rt1
          by (intro that [of "pre0 @ [File_handler path, Add_handler (next_object rt)]"])
             (simp_all add: hook_calls_def handler_calls_def addHandler_def)
      qed
    qed
  qed
qed

lemma captured_logs_exit_shape:
  assumes "captured_logs_exit m rt = (m', rt')"
  shows "log_handler m' = None"
    and "log_handler m = None \<Longrightarrow> calls rt' = calls rt \<and> root_handlers rt' = root_handlers rt"
    and "log_handler m = Some h \<Longrightarrow>
           calls rt' = calls rt @ [Remove_handler h] \<and>
           root_handlers rt' = remove1 h (root_handlers rt)"
  using assms by (auto simp: captured_logs_exit_def removeHandler_def split: option.splits)

lemma compile_body_skip:
  assumes "compile_body faults fs self m x_debug rt = (r, rt')"
    and "x_debug" and "is_dir fs (m_build_folder m)"
  shows "calls rt' = calls rt @ [Finalize (module_builder_name (cls m))]"
    and "root_handlers rt' = root_handlers rt"
  using assms by (auto simp: compile_body_def invoke_def Let_def)

lemma compile_body_full:
  assumes "compile_body faults fs self m x_debug rt = (r, rt')"
    and "\<not> (x_debug \<and> is_dir fs (m_build_folder m))"
  obtains body where "calls rt' = calls rt @ body" "root_handlers rt' = root_handlers rt"
    "body = take 1 (pipeline (module_builder_name (cls m)) (platform (target_system self))) \<or>
     body = take 2 (pipeline (module_builder_name (cls m)) (platform (target_system self))) \<or>
     body = take 3 (pipeline (module_builder_name (cls m)) (platform (target_system self))) \<or>
     body = take 4 (pipeline (module_builder_name (cls m)) (platform (target_system self))) \<or>
     body = take 5 (pipeline (module_builder_name (cls m)) (platform (target_system self)))"
    "(\<forall>c \<in> set (pipeline (module_builder_name (cls m)) (platform (target_system self))).
        faults c = None) \<and>
     has_compiler (cls m) (platform (target_system self)) \<longrightarrow>
     body = pipeline (module_builder_name (cls m)) (platform (target_system self)) \<and> r = None"
    "\<not> has_compiler (cls m) (platform (target_system self)) \<longrightarrow>
     body = take 1 (pipeline (module_builder_name (cls m)) (platform (target_system self))) \<or>
     body = take 2 (pipeline (module_builder_name (cls m)) (platform (target_system self))) \<or>
     body = take 3 (pipeline (module_builder_name (cls m)) (platform (target_system self)))"
    "faults (Unpack (module_builder_name (cls m))) = None \<and>
     faults (Setup_env (module_builder_name (cls m))) = None \<and>
     faults (Prepare (module_builder_name (cls m))) = None \<and>
     \<not> has_compiler (cls m) (platform (target_system self)) \<longrightarrow>
     body = take 3 (pipeline (module_builder_name (cls m)) (platform (target_system self))) \<and>
     r = Some (Aborted (Platform_not_supported (platform (target_system self))))"
proof -
  let ?n = "module_builder_name (cls m)"
  let ?p = "platform (target_system self)"
  have "\<exists>body. calls rt' = calls rt @ body \<and> root_handlers rt' = root_handlers rt \<and>
     (body = take 1 (pipeline ?n ?p) \<or> body = take 2 (pipeline ?n ?p) \<or>
      body = take 3 (pipeline ?n ?p) \<or> body = take 4 (pipeline ?n ?p) \<or>
      body = take 5 (pipeline ?n ?p)) \<and>
     ((\<forall>c \<in> set (pipeline ?n ?p). faults c = None) \<and> has_compiler (cls m) ?p \<longrightarrow>
      body = pipeline ?n ?p \<and> r = None)"
    using assms
    by (auto simp: compile_body_def invoke_def Let_def and_then_def run_setup_env_def pipeline_def
             split: option.splits if_splits)
  then obtain body where body: "calls rt' = calls rt @ body"
    and root: "root_handlers rt' = root_handlers rt"
    and shape: "body = take 1 (pipeline ?n ?p) \<or> body = take 2 (pipeline ?n ?p) \<or>
      body = take 3 (pipeline ?n ?p) \<or> body = take 4 (pipeline ?n ?p) \<or>
      body = take 5 (pipeline ?n ?p)"
    and full: "(\<forall>c \<in> set (pipeline ?n ?p). faults c = None) \<and> has_compiler (cls m) ?p \<longrightarrow>
      body = pipeline ?n ?p \<and> r = None"
    by blast
  have "\<not> has_compiler (cls m) ?p \<longrightarrow>
      calls rt' = calls rt @ take 1 (pipeline ?n ?p) \<or>
      calls rt' = calls rt @ take 2 (pipeline ?n ?p) \<or>
      calls rt' = calls rt @ take 3 (pipeline ?n ?p)"
    using assms
    by (auto simp: compile_body_def invoke_def Let_def and_then_def run_setup_env_def pipeline_def
             split: option.splits if_splits)
  then have short: "\<not> has_compiler (cls m) ?p \<longrightarrow>
      body = take 1 (pipeline ?n ?p) \<or> body = take 2 (pipeline ?n ?p) \<or>
      body = take 3 (pipeline ?n ?p)"
    unfolding body by simp
  have "faults (Unpack ?n) = None \<and> faults (Setup_env ?n) = None \<and> faults (Prepare ?n) = None \<and>
      \<not> has_compiler (cls m) ?p \<longrightarrow>
      calls rt' = calls rt @ take 3 (pipeline ?n ?p) \<and>
      r = Some (Aborted (Platform_not_supported ?p))"
    using assms
    by (auto simp: compile_body_def invoke_def Let_def and_then_def run_setup_env_def pipeline_def)
  then have abort: "faults (Unpack ?n) = None \<and> faults (Setup_env ?n) = None \<and>
      faults (Prepare ?n) = None \<and> \<not> has_compiler (cls m) ?p \<longrightarrow>
      body = take 3 (pipeline ?n ?p) \<and> r = Some (Aborted (Platform_not_supported ?p))"
    unfolding body by simp
  from body root shape full short abort show thesis by (rule that)
qed

lemma captured_logs_exit_calls:
  assumes "captured_logs_exit m rt = (m', rt')"
  obtains post where "calls rt' = calls rt @ post" "hook_calls post = []"
    "post = (case log_handler m of None \<Rightarrow> [] | Some h \<Rightarrow> [Remove_handler h])"
  using assms
  by (auto simp: captured_logs_exit_def removeHandler_def hook_calls_def split: option.splits)

lemma take_pipeline_hooks: "hook_calls (take k (pipeline n p)) = take k (pipeline n p)"
proof -
  have "\<forall>c \<in> set (pipeline n p). is_hook c"
    by (simp add: pipeline_def)
  then have "\<forall>c \<in> set (take k (pipeline n p)). is_hook c"
    by (meson in_set_takeD)
  then show ?thesis
    by (simp add: hook_calls_def)
qed

text \<open>
  Claim C8, as amended. In debug mode, for a builder whose build folder is a directory,
  \<open>compile\<close> invokes none of unpack, environment setup, prepare and the platform's build
  step; the one hook it invokes is finalize, and it does so whenever the log capture was set
  up without a fault. Otherwise (not in debug mode, or no such directory) the hooks invoked
  are an initial part of the sequence unpack, environment setup, prepare, platform build step,
  finalize; when the log capture was set up, none of these hooks fails and the class has a
  build step for the target platform, they are the whole sequence and \<open>compile\<close> returns.
  When the class has no build step for the target platform, at most the first three hooks are
  invoked, never a build step or finalize; and when the log capture was set up and unpack,
  environment setup and prepare do not fail, exactly these three are invoked and \<open>compile\<close>
  ends with the abort that names the platform.
\<close>

theorem debug_resume:
  "case ModuleBuilder_compile faults fs self m x_debug rt of
     (r, m', rt') \<Rightarrow>
       \<exists>new. calls rt' = calls rt @ new \<and>
         (x_debug \<and> is_dir fs (m_build_folder m) \<longrightarrow>
            hook_calls new =
              (if fst (captured_logs_enter faults fs self m rt) = None
               then [Finalize (module_builder_name (cls m))] else [])) \<and>
         (\<not> (x_debug \<and> is_dir fs (m_build_folder m)) \<longrightarrow>
            (\<exists>k. hook_calls new =
               take k (pipeline (module_builder_name (cls m)) (platform (target_system self)))) \<and>
            (fst (captured_logs_enter faults fs self m rt) = None \<and>
             (\<forall>c \<in> set (pipeline (module_builder_name (cls m)) (platform (target_system self))).
                faults c = None) \<and>
             has_compiler (cls m) (platform (target_system self)) \<longrightarrow>
               hook_calls new =
                 pipeline (module_builder_name (cls m)) (platform (target_system self)) \<and>
               r = None) \<and>
            (\<not> has_compiler (cls m) (platform (target_system self)) \<longrightarrow>
               (\<exists>k\<le>3. hook_calls new =
                  take k (pipeline (module_builder_name (cls m)) (platform (target_system self))))) \<and>
            (fst (captured_logs_enter faults fs self m rt) = None \<and>
             faults (Unpack (module_builder_name (cls m))) = None \<and>
             faults (Setup_env (module_builder_name (cls m))) = None \<and>
             faults (Prepare (module_builder_name (cls m))) = None \<and>
             \<not> has_compiler (cls m) (platform (target_system self)) \<longrightarrow>
               hook_calls new =
                 [Unpack (module_builder_name (cls m)), Setup_env (module_builder_name (cls m)),
                  Prepare (module_builder_name (cls m))] \<and>
               r = Some (Aborted (Platform_not_supported (platform (target_system self))))))"
proof -
  let ?n = "module_builder_name (cls m)"
  let ?p = "platform (target_system self)"
  let ?P = "pipeline ?n ?p"
  have t3: "take 3 ?P = [Unpack ?n, Setup_env ?n, Prepare ?n]"
    by (simp add: pipeline_def)
  obtain r1 m1 rt1 where enter: "captured_logs_enter faults fs self m rt = (r1, m1, rt1)"
    by (cases "captured_logs_enter faults fs self m rt")
  then obtain pre where pre: "calls rt1 = calls rt @ pre" "hook_calls pre = []"
    and m1: "cls m1 = cls m" "m_build_folder m1 = m_build_folder m"
    by (rule captured_logs_enter_shape)
  show ?thesis
  proof (cases r1)
    case (Some f)
    obtain m2 rt2 where exit: "captured_logs_exit m1 rt1 = (m2, rt2)"
      by (cases "captured_logs_exit m1 rt1")
    then obtain post where post: "calls rt2 = calls rt1 @ post" "hook_calls post = []"
      by (rule captured_logs_exit_calls)
    have res: "ModuleBuilder_compile faults fs self m x_debug rt = (Some f, m2, rt2)"
      using enter Some exit by (simp add: ModuleBuilder_compile_def)
    have c: "calls rt2 = calls rt @ (pre @ post)" and h: "hook_calls (pre @ post) = []"
      using pre post by (simp_all add: hook_calls_def)
    have z: "\<exists>k. [] = take k ?P" "\<exists>k\<le>3. [] = take k ?P"
      by (rule exI [of _ 0], simp)+
    show ?thesis
      unfolding res using enter Some c h z by auto
  next
    case None
    obtain r rt2 where body: "compile_body faults fs self m1 x_debug rt1 = (r, rt2)"
      by (cases "compile_body faults fs self m1 x_debug rt1")
    obtain m2 rt3 where exit: "captured_logs_exit m1 rt2 = (m2, rt3)"
      by (cases "captured_logs_exit m1 rt2")
    then obtain post where post: "calls rt3 = calls rt2 @ post" "hook_calls post = []"
      by (rule captured_logs_exit_calls)
    have res: "ModuleBuilder_compile faults fs self m x_debug rt = (r, m2, rt3)"
      using enter None body exit by (simp add: ModuleBuilder_compile_def)
    show ?thesis
    proof (cases "x_debug \<and> is_dir fs (m_build_folder m)")
      case True
      then have "calls rt2 = calls rt1 @ [Finalize ?n]"
        using compile_body_skip(1) [OF body] m1 by simp
      then have c: "calls rt3 = calls rt @ (pre @ [Finalize ?n] @ post)"
        and h: "hook_calls (pre @ [Finalize ?n] @ post) = [Finalize ?n]"
        using pre post by (simp_all add: hook_calls_def)
      show ?thesis
        unfolding res using enter None True c h by auto
    next
      case False
      then have ns: "\<not> (x_debug \<and> is_dir fs (m_build_folder m1))"
        using m1 by simp
      let ?P1 = "pipeline (module_builder_name (cls m1)) ?p"
      obtain b where b: "calls rt2 = calls rt1 @ b"
        and shape1: "b = take 1 ?P1 \<or> b = take 2 ?P1 \<or> b = take 3 ?P1 \<or> b = take 4 ?P1 \<or> b = take 5 ?P1"
        and full1: "(\<forall>c \<in> set ?P1. faults c = None) \<and> has_compiler (cls m1) ?p \<longrightarrow> b = ?P1 \<and> r = None"
        and short1: "\<not> has_compiler (cls m1) ?p \<longrightarrow> b = take 1 ?P1 \<or> b = take 2 ?P1 \<or> b = take 3 ?P1"
        and abort1: "faults (Unpack (module_builder_name (cls m1))) = None \<and>
            faults (Setup_env (module_builder_name (cls m1))) = None \<and>
            faults (Prepare (module_builder_name (cls m1))) = None \<and>
            \<not> has_compiler (cls m1) ?p \<longrightarrow>
            b = take 3 ?P1 \<and> r = Some (Aborted (Platform_not_supported ?p))"
        using body ns by (rule compile_body_full)
      have shape: "b = take 1 ?P \<or> b = take 2 ?P \<or> b = take 3 ?P \<or> b = take 4 ?P \<or> b = take 5 ?P"
        using shape1 unfolding m1 .
      have full: "(\<forall>c \<in> set ?P. faults c = None) \<and> has_compiler (cls m) ?p \<longrightarrow> b = ?P \<and> r = None"
        using full1 unfolding m1 .
      have short: "\<not> has_compiler (cls m) ?p \<longrightarrow> (\<exists>k\<le>3. b = take k ?P)"
      proof
        assume "\<not> has_compiler (cls m) ?p"
        then have "b = take 1 ?P \<or> b = take 2 ?P \<or> b = take 3 ?P"
          using short1 unfolding m1 by simp
        then show "\<exists>k\<le>3. b = take k ?P"
        proof (elim disjE)
          assume "b = take 1 ?P"
          then show ?thesis by (intro exI [of _ 1]) simp
        next
          assume "b = take 2 ?P"
          then show ?thesis by (intro exI [of _ 2]) simp
        next
          assume "b = take 3 ?P"
          then show ?thesis by (intro exI [of _ 3]) simp
        qed
      qed
      have abort: "faults (Unpack ?n) = None \<and> faults (Setup_env ?n) = None \<and>
            faults (Prepare ?n) = None \<and> \<not> has_compiler (cls m) ?p \<longrightarrow>
            b = [Unpack ?n, Setup_env ?n, Prepare ?n] \<and>
            r = Some (Aborted (Platform_not_supported ?p))"
        using abort1 unfolding m1 t3 .
      from shape obtain k where k: "b = take k ?P" by blast
      have c: "calls rt3 = calls rt @ (pre @ b @ post)"
        using pre post b by simp
      have h: "hook_calls (pre @ b @ post) = b"
        using pre post k take_pipeline_hooks [of k ?n ?p] by (simp add: hook_calls_def)
      have ex: "\<exists>k. b = take k ?P"
        using k by blast
      show ?thesis
        unfolding res prod.case
        apply (rule exI [of _ "pre @ b @ post"])
        unfolding h
        using enter None False c ex full short abort by (simp, blast)
    qed
  qed
qed

theorem debug_resume_witness:
  "(True \<and> is_dir resume_fs (m_build_folder sqlite_builder)) \<and>
   fst (captured_logs_enter no_faults resume_fs (built ''sqlite'' None) sqlite_builder start) = None \<and>
   hook_calls (calls (snd (snd (ModuleBuilder_compile no_faults resume_fs (built ''sqlite'' None)
                                  sqlite_builder True start)))) = [Finalize ''sqlite''] \<and>
   \<not> (False \<and> is_dir resume_fs (m_build_folder sqlite_builder)) \<and>
   has_compiler (cls sqlite_builder) (platform (target_system (built ''sqlite'' None))) \<and>
   hook_calls (calls (snd (snd (ModuleBuilder_compile no_faults resume_fs (built ''sqlite'' None)
                                  sqlite_builder False start)))) =
     [Unpack ''sqlite'', Setup_env ''sqlite'', Prepare ''sqlite'',
      Platform_compile ''sqlite'' ''darwin'', Finalize ''sqlite''] \<and>
   fst (ModuleBuilder_compile no_faults resume_fs (built ''sqlite'' None) sqlite_builder False start) = None \<and>
   \<not> has_compiler (cls sqlite_builder)
        (platform (target_system (built ''sqlite'' (Some ''windows-x86'')))) \<and>
   fst (captured_logs_enter no_faults resume_fs (built ''sqlite'' (Some ''windows-x86''))
          sqlite_builder start) = None \<and>
   hook_calls (calls (snd (snd (ModuleBuilder_compile no_faults resume_fs
                                  (built ''sqlite'' (Some ''windows-x86'')) sqlite_builder False start)))) =
     [Unpack ''sqlite'', Setup_env ''sqlite'', Prepare ''sqlite''] \<and>
   fst (ModuleBuilder_compile no_faults resume_fs (built ''sqlite'' (Some ''windows-x86''))
          sqlite_builder False start) = Some (Aborted (Platform_not_supported ''windows''))"
proof -
  let ?S = "built ''sqlite'' None"
  let ?W = "built ''sqlite'' (Some ''windows-x86'')"
  have ew: "fst (captured_logs_enter no_faults resume_fs ?W sqlite_builder start) = None"
    by code_simp
  have pw: "platform (target_system ?W) = ''windows''"
    by code_simp
  have hw: "\<not> has_compiler (cls sqlite_builder) (platform (target_system ?W))"
    unfolding pw by code_simp
  have nw: "no_faults (Unpack ''sqlite'') = None" "no_faults (Setup_env ''sqlite'') = None"
    "no_faults (Prepare ''sqlite'') = None"
    by (simp_all add: no_faults_def)
  obtain r3 m3 rt3 where c3:
    "ModuleBuilder_compile no_faults resume_fs ?W sqlite_builder False start = (r3, m3, rt3)"
    by (cases "ModuleBuilder_compile no_faults resume_fs ?W sqlite_builder False start")
  have d: "is_dir resume_fs (m_build_folder sqlite_builder)"
    by code_simp
  have e: "fst (captured_logs_enter no_faults resume_fs ?S sqlite_builder start) = None"
    by code_simp
  have n: "module_builder_name (cls sqlite_builder) = ''sqlite''" "platform (target_system ?S) = ''darwin''"
    by code_simp+
  have hc: "has_compiler (cls sqlite_builder) (platform (target_system ?S))"
    unfolding n by (simp add: has_compiler_def)
  have nf: "\<forall>c \<in> set (pipeline ''sqlite'' ''darwin''). no_faults c = None"
    by (simp add: no_faults_def)
  have s0: "calls start = []"
    by (simp add: start_def)
  obtain r1 m1 rt1 where c1:
    "ModuleBuilder_compile no_faults resume_fs ?S sqlite_builder True start = (r1, m1, rt1)"
    by (cases "ModuleBuilder_compile no_faults resume_fs ?S sqlite_builder True start")
  obtain r2 m2 rt2 where c2:
    "ModuleBuilder_compile no_faults resume_fs ?S sqlite_builder False start = (r2, m2, rt2)"
    by (cases "ModuleBuilder_compile no_faults resume_fs ?S sqlite_builder False start")
  have w1: "hook_calls (calls rt1) = [Finalize ''sqlite'']"
    using debug_resume [where faults = no_faults and fs = resume_fs and self = ?S
        and m = sqlite_builder and x_debug = True and rt = start] d e
    unfolding c1 n s0 by auto
  have w2: "hook_calls (calls rt2) = pipeline ''sqlite'' ''darwin'' \<and> r2 = None"
    using debug_resume [where faults = no_faults and fs = resume_fs and self = ?S
        and m = sqlite_builder and x_debug = False and rt = start] e hc nf
    unfolding c2 n s0 by auto
  have w3: "hook_calls (calls rt3) = [Unpack ''sqlite'', Setup_env ''sqlite'', Prepare ''sqlite''] \<and>
            r3 = Some (Aborted (Platform_not_supported ''windows''))"
    using debug_resume [where faults = no_faults and fs = resume_fs and self = ?W
        and m = sqlite_builder and x_debug = False and rt = start] ew hw nw
    unfolding c3 n(1) pw s0 by auto
  show ?thesis
    using d e hc w1 w2 ew hw w3 unfolding c1 c2 c3 by (simp add: pipeline_def)
qed

text \<open>
  The claim as stated fails for a target platform without a build step: outside debug mode,
  on the target windows-x86, \<open>compile\<close> aborts after prepare; neither a build step nor
  finalize is invoked.
\<close>

theorem unsupported_platform_counterexample:
  "fst (ModuleBuilder_compile no_faults example_fs (built ''sqlite'' (Some ''windows-x86''))
          sqlite_builder False start) = Some (Aborted (Platform_not_supported ''windows'')) \<and>
   hook_calls (calls (snd (snd (ModuleBuilder_compile no_faults example_fs
                                  (built ''sqlite'' (Some ''windows-x86'')) sqlite_builder False start)))) =
     [Unpack ''sqlite'', Setup_env ''sqlite'', Prepare ''sqlite'']"
  by code_simp

section \<open>Properties of the log capture\<close>

lemma replay_append: "replay hs (a @ b) = replay (replay hs a) b"
  by (induction hs a rule: replay.induct) simp_all

lemma peak_ge: "length hs \<le> peak hs cs"
  by (cases cs) simp_all

lemma peak_append: "peak hs (a @ b) = max (peak hs a) (peak (replay hs a) b)"
proof (induction a arbitrary: hs)
  case Nil
  then show ?case using peak_ge [of hs b] by simp
next
  case (Cons c a)
  have "replay hs (c # a) = replay (replay hs [c]) a"
    using replay_append [of hs "[c]" a] by simp
  then show ?case using Cons [of "replay hs [c]"] by simp
qed

lemma replay_handler_calls: "replay hs (handler_calls cs) = replay hs cs"
  by (induction hs cs rule: replay.induct) (simp_all add: handler_calls_def)

lemma replay_single: "\<not> is_handler_call c \<Longrightarrow> replay hs [c] = hs"
  by (cases c) simp_all

lemma peak_handler_calls: "peak hs (handler_calls cs) = peak hs cs"
proof (induction cs arbitrary: hs)
  case Nil
  then show ?case by (simp add: handler_calls_def)
next
  case (Cons c cs)
  show ?case
  proof (cases "is_handler_call c")
    case True
    then show ?thesis using Cons [of "replay hs [c]"] by (simp add: handler_calls_def)
  next
    case False
    then show ?thesis using Cons [of hs] peak_ge [of hs cs]
      by (simp add: handler_calls_def replay_single)
  qed
qed

lemma captured_logs_enter_handlers:
  assumes "captured_logs_enter faults fs self m rt = (r, m1, rt1)"
  obtains pre where "calls rt1 = calls rt @ pre"
    "r = None \<and> is_dir fs (logs_folder self) \<longrightarrow>
       handler_calls pre = [Add_handler (next_object rt)] \<and>
       log_handler m1 = Some (next_object rt) \<and>
       root_handlers rt1 = (if next_object rt \<in> set (root_handlers rt) then root_handlers rt
                            else root_handlers rt @ [next_object rt])"
    "\<not> (r = None \<and> is_dir fs (logs_folder self)) \<longrightarrow>
       handler_calls pre = [] \<and> log_handler m1 = log_handler m \<and>
       root_handlers rt1 = root_handlers rt"
proof -
  obtain g rt0 where g: "get_logs_path faults self (module_builder_name (cls m)) rt = (g, rt0)"
    by (cases "get_logs_path faults self (module_builder_name (cls m)) rt")
  then obtain pre0 where pre0: "calls rt0 = calls rt @ pre0"
    "handler_calls pre0 = []" "root_handlers rt0 = root_handlers rt" "next_object rt0 = next_object rt"
    by (rule get_logs_path_shape)
  show thesis
  proof (cases g)
    case (Inl f)
    with assms g have "r = Some f" "m1 = m" "rt1 = rt0"
      by (simp_all add: captured_logs_enter_def)
    with pre0 show thesis by (intro that [of pre0]) simp_all
  next
    case (Inr path)
    show thesis
    proof (cases "is_dir fs (logs_folder self)")
      case False
      with assms g Inr have "m1 = m" "rt1 = rt0"
        by (simp_all add: captured_logs_enter_def)
      with pre0 False show thesis by (intro that [of pre0]) simp_all
    next
      case True
      show thesis
      proof (cases "faults (File_handler path)")
        case (Some f)
        with assms g Inr True have "r = Some f" "m1 = m"
          "rt1 = rt0\<lparr>calls := calls rt0 @ [File_handler path]\<rparr>"
          by (simp_all add: captured_logs_enter_def invoke_def)
        with pre0 show thesis
          by (intro that [of "pre0 @ [File_handler path]"]) (simp_all add: handler_calls_def)
      next
        case None
        with assms g Inr True have r: "r = None" and m1: "m1 = m\<lparr>log_handler := Some (next_object rt0)\<rparr>"
          and rt1: "rt1 = addHandler (next_object rt0)
                     (rt0\<lparr>calls := calls rt0 @ [File_handler path], next_object := next_object rt0 + 1\<rparr>)"
          by (simp_all add: captured_logs_enter_def invoke_def Let_def)
        show thesis
          using pre0 r m1 rt1 True
          by (intro that [of "pre0 @ [File_handler path, Add_handler (next_object rt)]"])
             (simp_all add: handler_calls_def addHandler_def)
      qed
    qed
  qed
qed

lemma compile_body_handlers:
  assumes "compile_body faults fs self m x_debug rt = (r, rt')"
  obtains body where "calls rt' = calls rt @ body" "handler_calls body = []"
    "root_handlers rt' = root_handlers rt"
proof -
  have "\<exists>body. calls rt' = calls rt @ body \<and> handler_calls body = [] \<and>
          root_handlers rt' = root_handlers rt"
    using assms
    by (auto simp: compile_body_def invoke_def Let_def and_then_def run_setup_env_def
          handler_calls_def split: option.splits if_splits)
  then show thesis using that by blast
qed

lemma ModuleBuilder_compile_handlers:
  assumes "ModuleBuilder_compile faults fs self m x_debug rt = (r, m', rt')"
  obtains new where "calls rt' = calls rt @ new" "log_handler m' = None"
    "fst (captured_logs_enter faults fs self m rt) = None \<and> is_dir fs (logs_folder self) \<longrightarrow>
       handler_calls new = [Add_handler (next_object rt), Remove_handler (next_object rt)] \<and>
       root_handlers rt' = remove1 (next_object rt)
         (if next_object rt \<in> set (root_handlers rt) then root_handlers rt
          else root_handlers rt @ [next_object rt])"
    "\<not> (fst (captured_logs_enter faults fs self m rt) = None \<and> is_dir fs (logs_folder self)) \<longrightarrow>
       handler_calls new = (case log_handler m of None \<Rightarrow> [] | Some h \<Rightarrow> [Remove_handler h]) \<and>
       root_handlers rt' = (case log_handler m of None \<Rightarrow> root_handlers rt
                            | Some h \<Rightarrow> remove1 h (root_handlers rt))"
proof -
  obtain r1 m1 rt1 where enter: "captured_logs_enter faults fs self m rt = (r1, m1, rt1)"
    by (cases "captured_logs_enter faults fs self m rt")
  then obtain pre where pre: "calls rt1 = calls rt @ pre"
    and inst: "r1 = None \<and> is_dir fs (logs_folder self) \<longrightarrow>
       handler_calls pre = [Add_handler (next_object rt)] \<and>
       log_handler m1 = Some (next_object rt) \<and>
       root_handlers rt1 = (if next_object rt \<in> set (root_handlers rt) then root_handlers rt
                            else root_handlers rt @ [next_object rt])"
    and noinst: "\<not> (r1 = None \<and> is_dir fs (logs_folder self)) \<longrightarrow>
       handler_calls pre = [] \<and> log_handler m1 = log_handler m \<and>
       root_handlers rt1 = root_handlers rt"
    by (rule captured_logs_enter_handlers)
  obtain rt2 body where body: "calls rt2 = calls rt1 @ body" "handler_calls body = []"
    "root_handlers rt2 = root_handlers rt1"
    and res: "\<exists>m2 rt3. captured_logs_exit m1 rt2 = (m2, rt3) \<and>
                ModuleBuilder_compile faults fs self m x_debug rt = (r, m2, rt3)"
  proof (cases r1)
    case (Some f)
    show thesis
      using enter Some assms
      by (intro that [of rt1 "[]"])
         (auto simp: ModuleBuilder_compile_def handler_calls_def split: prod.splits)
  next
    case None
    obtain rb rt2 where b: "compile_body faults fs self m1 x_debug rt1 = (rb, rt2)"
      by (cases "compile_body faults fs self m1 x_debug rt1")
    then obtain body where "calls rt2 = calls rt1 @ body" "handler_calls body = []"
      "root_handlers rt2 = root_handlers rt1"
      by (rule compile_body_handlers)
    then show thesis
      using enter None assms b
      by (intro that [of rt2 body])
         (auto simp: ModuleBuilder_compile_def split: prod.splits)
  qed
  from res assms obtain m2 rt3 where exit: "captured_logs_exit m1 rt2 = (m2, rt3)"
    and eq: "m' = m2" "rt' = rt3"
    by auto
  have none: "log_handler m' = None"
    using captured_logs_exit_shape(1) [OF exit] eq by simp
  show thesis
  proof (cases "r1 = None \<and> is_dir fs (logs_folder self)")
    case True
    then have h: "handler_calls pre = [Add_handler (next_object rt)]"
      "log_handler m1 = Some (next_object rt)"
      "root_handlers rt1 = (if next_object rt \<in> set (root_handlers rt) then root_handlers rt
                            else root_handlers rt @ [next_object rt])"
      using inst by simp_all
    have x: "calls rt3 = calls rt2 @ [Remove_handler (next_object rt)]"
      "root_handlers rt3 = remove1 (next_object rt) (root_handlers rt2)"
      using captured_logs_exit_shape(3) [OF exit h(2)] by simp_all
    show thesis
      using True enter pre body h x eq none
      by (intro that [of "pre @ body @ [Remove_handler (next_object rt)]"])
         (simp_all add: handler_calls_def)
  next
    case False
    then have h: "handler_calls pre = []" "log_handler m1 = log_handler m"
      "root_handlers rt1 = root_handlers rt"
      using noinst by simp_all
    show thesis
    proof (cases "log_handler m")
      case None
      then have x: "calls rt3 = calls rt2" "root_handlers rt3 = root_handlers rt2"
        using captured_logs_exit_shape(2) [OF exit] h by simp_all
      show thesis
        using False enter pre body h x eq none None
        by (intro that [of "pre @ body"]) (simp_all add: handler_calls_def)
    next
      case (Some h0)
      then have x: "calls rt3 = calls rt2 @ [Remove_handler h0]"
        "root_handlers rt3 = remove1 h0 (root_handlers rt2)"
        using captured_logs_exit_shape(3) [OF exit, of h0] h by simp_all
      show thesis
        using False enter pre body h x eq none Some
        by (intro that [of "pre @ body @ [Remove_handler h0]"]) (simp_all add: handler_calls_def)
    qed
  qed
qed

lemma ModuleBuilder_compile_trace:
  assumes "ModuleBuilder_compile faults fs self m x_debug rt = (r, m', rt')"
  obtains new where "calls rt' = calls rt @ new" "replay [] new = []" "peak [] new \<le> 1"
proof -
  obtain new where new: "calls rt' = calls rt @ new"
    and inst: "fst (captured_logs_enter faults fs self m rt) = None \<and> is_dir fs (logs_folder self) \<longrightarrow>
       handler_calls new = [Add_handler (next_object rt), Remove_handler (next_object rt)] \<and>
       root_handlers rt' = remove1 (next_object rt)
         (if next_object rt \<in> set (root_handlers rt) then root_handlers rt
          else root_handlers rt @ [next_object rt])"
    and noinst: "\<not> (fst (captured_logs_enter faults fs self m rt) = None \<and> is_dir fs (logs_folder self)) \<longrightarrow>
       handler_calls new = (case log_handler m of None \<Rightarrow> [] | Some h \<Rightarrow> [Remove_handler h]) \<and>
       root_handlers rt' = (case log_handler m of None \<Rightarrow> root_handlers rt
                            | Some h \<Rightarrow> remove1 h (root_handlers rt))"
    using assms by (rule ModuleBuilder_compile_handlers)
  have "replay [] (handler_calls new) = [] \<and> peak [] (handler_calls new) \<le> 1"
    using inst noinst
    by (cases "fst (captured_logs_enter faults fs self m rt) = None \<and> is_dir fs (logs_folder self)")
       (auto split: option.splits)
  then have "replay [] new = []" "peak [] new \<le> 1"
    by (simp_all add: replay_handler_calls peak_handler_calls)
  with new show thesis by (rule that)
qed

lemma trace_append:
  assumes "replay [] a = []" "peak [] a \<le> 1" "replay [] b = []" "peak [] b \<le> 1"
  shows "replay [] (a @ b) = []" "peak [] (a @ b) \<le> 1"
  using assms by (simp_all add: replay_append peak_append)

lemma compile_modules_trace:
  assumes "compile_modules faults fs self ms x_debug rt = (r, ms', rt')"
  obtains new where "calls rt' = calls rt @ new" "replay [] new = []" "peak [] new \<le> 1"
proof -
  have "\<exists>new. calls rt' = calls rt @ new \<and> replay [] new = [] \<and> peak [] new \<le> 1"
    using assms
  proof (induction ms arbitrary: rt r ms' rt')
    case Nil
    then show ?case by simp
  next
    case (Cons m ms)
    obtain r1 m1 rt1 where one: "ModuleBuilder_compile faults fs self m x_debug rt = (r1, m1, rt1)"
      by (cases "ModuleBuilder_compile faults fs self m x_debug rt")
    then obtain a where a: "calls rt1 = calls rt @ a" "replay [] a = []" "peak [] a \<le> 1"
      by (rule ModuleBuilder_compile_trace)
    show ?case
    proof (cases r1)
      case (Some f)
      then have "rt' = rt1" using Cons.prems one by simp
      with a show ?thesis by blast
    next
      case None
      obtain r2 ms2 rt2 where rest: "compile_modules faults fs self ms x_debug rt1 = (r2, ms2, rt2)"
        by (cases "compile_modules faults fs self ms x_debug rt1")
      then obtain b where b: "calls rt2 = calls rt1 @ b" "replay [] b = []" "peak [] b \<le> 1"
        using Cons.IH by blast
      have "rt' = rt2" using Cons.prems one None rest by simp
      then have "calls rt' = calls rt @ (a @ b)" using a b by simp
      moreover have "replay [] (a @ b) = []" "peak [] (a @ b) \<le> 1"
        using a(2,3) b(2,3) by (rule trace_append)+
      ultimately show ?thesis by blast
    qed
  qed
  then show thesis using that by blast
qed

lemma BuildSetup_compile_trace:
  assumes "BuildSetup_compile faults fs self x_debug rt = (r, self', rt')"
  obtains new where "calls rt' = calls rt @ new" "replay [] new = []" "peak [] new \<le> 1"
proof -
  let ?e = "Ensure_folder (build_folder self) (\<not> x_debug)"
  let ?rt1 = "rt\<lparr>calls := calls rt @ [?e]\<rparr>"
  have e: "replay [] [?e] = []" "peak [] [?e] \<le> 1"
    by simp_all
  show thesis
  proof (cases "faults ?e = None \<and> unknown_modules self = []")
    case False
    then have "rt' = ?rt1"
      using assms by (auto simp: BuildSetup_compile_def invoke_def split: option.splits if_splits)
    then have "calls rt' = calls rt @ [?e]" by simp
    with e show thesis using that by blast
  next
    case True
    obtain r2 ms rt2 where mods:
      "compile_modules faults fs self (active_modules self) x_debug ?rt1 = (r2, ms, rt2)"
      by (cases "compile_modules faults fs self (active_modules self) x_debug ?rt1")
    then obtain a where a: "calls rt2 = calls ?rt1 @ a" "replay [] a = []" "peak [] a \<le> 1"
      by (rule compile_modules_trace)
    have ea1: "calls rt2 = calls rt @ ([?e] @ a)"
      using a by simp
    have ea2: "replay [] ([?e] @ a) = []" "peak [] ([?e] @ a) \<le> 1"
      using e a(2,3) by (rule trace_append)+
    note ea = ea1 ea2
    show thesis
    proof (cases "r2 = None \<and> python_builder self \<noteq> None")
      case False
      then have "rt' = rt2"
        using assms True mods
        by (auto simp: BuildSetup_compile_def invoke_def split: option.splits)
      with ea show thesis using that by blast
    next
      case py: True
      then obtain pb where pb: "python_builder self = Some pb" by auto
      obtain r3 pb' rt3 where c: "ModuleBuilder_compile faults fs self pb x_debug rt2 = (r3, pb', rt3)"
        by (cases "ModuleBuilder_compile faults fs self pb x_debug rt2")
      then obtain b where b: "calls rt3 = calls rt2 @ b" "replay [] b = []" "peak [] b \<le> 1"
        by (rule ModuleBuilder_compile_trace)
      have "rt' = rt3"
        using assms True mods py pb c
        by (auto simp: BuildSetup_compile_def invoke_def split: option.splits)
      then have "calls rt' = calls rt @ (([?e] @ a) @ b)"
        using ea b by simp
      moreover have "replay [] (([?e] @ a) @ b) = []" "peak [] (([?e] @ a) @ b) \<le> 1"
        using ea(2,3) b(2,3) by (rule trace_append)+
      ultimately show thesis using that by blast
    qed
  qed
qed

text \<open>
  Claim C9. However a builder's \<open>compile\<close> ends (it returns, aborts, or a call of it fails
  at any point), the builder's \<open>_log_handler\<close> is \<open>None\<close> afterwards, and among the calls it
  made every handler added has been removed again: no handler of the call is left installed,
  and at no moment more than one was. When the log capture was set up and the logs folder is
  a directory, the call added the new handler and removed that same handler; and if the
  builder held no handler before and the new handler is not among the root handlers yet, the
  root handlers are afterwards what they were before. The same holds for the calls of a whole
  \<open>BuildSetup.compile\<close>: at most one handler is installed at any moment, none at the end.
\<close>

theorem log_handler_released:
  "(case ModuleBuilder_compile faults fs self m x_debug rt of
      (r, m', rt') \<Rightarrow>
        log_handler m' = None \<and>
        (\<exists>new. calls rt' = calls rt @ new \<and> replay [] new = [] \<and> peak [] new \<le> 1 \<and>
           (fst (captured_logs_enter faults fs self m rt) = None \<and> is_dir fs (logs_folder self) \<longrightarrow>
              handler_calls new =
                [Add_handler (next_object rt), Remove_handler (next_object rt)])) \<and>
        (log_handler m = None \<and> next_object rt \<notin> set (root_handlers rt) \<longrightarrow>
           root_handlers rt' = root_handlers rt)) \<and>
   (case BuildSetup_compile faults fs self x_debug rt of
      (r, self', rt') \<Rightarrow>
        \<exists>new. calls rt' = calls rt @ new \<and> replay [] new = [] \<and> peak [] new \<le> 1)"
proof (rule conjI)
  obtain r m' rt' where c: "ModuleBuilder_compile faults fs self m x_debug rt = (r, m', rt')"
    by (cases "ModuleBuilder_compile faults fs self m x_debug rt")
  then obtain new where new: "calls rt' = calls rt @ new" and none: "log_handler m' = None"
    and inst: "fst (captured_logs_enter faults fs self m rt) = None \<and> is_dir fs (logs_folder self) \<longrightarrow>
       handler_calls new = [Add_handler (next_object rt), Remove_handler (next_object rt)] \<and>
       root_handlers rt' = remove1 (next_object rt)
         (if next_object rt \<in> set (root_handlers rt) then root_handlers rt
          else root_handlers rt @ [next_object rt])"
    and noinst: "\<not> (fst (captured_logs_enter faults fs self m rt) = None \<and> is_dir fs (logs_folder self)) \<longrightarrow>
       handler_calls new = (case log_handler m of None \<Rightarrow> [] | Some h \<Rightarrow> [Remove_handler h]) \<and>
       root_handlers rt' = (case log_handler m of None \<Rightarrow> root_handlers rt
                            | Some h \<Rightarrow> remove1 h (root_handlers rt))"
    by (rule ModuleBuilder_compile_handlers)
  have "replay [] (handler_calls new) = [] \<and> peak [] (handler_calls new) \<le> 1"
    using inst noinst
    by (cases "fst (captured_logs_enter faults fs self m rt) = None \<and> is_dir fs (logs_folder self)")
       (auto split: option.splits)
  then have tr: "replay [] new = []" "peak [] new \<le> 1"
    by (simp_all add: replay_handler_calls peak_handler_calls)
  have root: "log_handler m = None \<and> next_object rt \<notin> set (root_handlers rt) \<longrightarrow>
              root_handlers rt' = root_handlers rt"
    using inst noinst
    by (cases "fst (captured_logs_enter faults fs self m rt) = None \<and> is_dir fs (logs_folder self)")
       (auto simp: remove1_append)
  show "case ModuleBuilder_compile faults fs self m x_debug rt of
      (r, m', rt') \<Rightarrow>
        log_handler m' = None \<and>
        (\<exists>new. calls rt' = calls rt @ new \<and> replay [] new = [] \<and> peak [] new \<le> 1 \<and>
           (fst (captured_logs_enter faults fs self m rt) = None \<and> is_dir fs (logs_folder self) \<longrightarrow>
              handler_calls new =
                [Add_handler (next_object rt), Remove_handler (next_object rt)])) \<and>
        (log_handler m = None \<and> next_object rt \<notin> set (root_handlers rt) \<longrightarrow>
           root_handlers rt' = root_handlers rt)"
    unfolding c using none new tr inst root by auto
next
  obtain r self' rt' where c: "BuildSetup_compile faults fs self x_debug rt = (r, self', rt')"
    by (cases "BuildSetup_compile faults fs self x_debug rt")
  then obtain new where "calls rt' = calls rt @ new" "replay [] new = []" "peak [] new \<le> 1"
    by (rule BuildSetup_compile_trace)
  then show "case BuildSetup_compile faults fs self x_debug rt of
      (r, self', rt') \<Rightarrow>
        \<exists>new. calls rt' = calls rt @ new \<and> replay [] new = [] \<and> peak [] new \<le> 1"
    unfolding c by auto
qed

theorem log_handler_released_witness:
  "fst (captured_logs_enter make_fails example_fs (built ''sqlite'' None) sqlite_builder start) = None \<and>
   is_dir example_fs (logs_folder (built ''sqlite'' None)) \<and>
   log_handler sqlite_builder = None \<and> next_object start \<notin> set (root_handlers start) \<and>
   fst (ModuleBuilder_compile make_fails example_fs (built ''sqlite'' None) sqlite_builder False start) =
     Some (Raised ''make failed'') \<and>
   log_handler (fst (snd (ModuleBuilder_compile make_fails example_fs (built ''sqlite'' None)
                            sqlite_builder False start))) = None \<and>
   handler_calls (calls (snd (snd (ModuleBuilder_compile make_fails example_fs (built ''sqlite'' None)
                                     sqlite_builder False start)))) =
     [Add_handler 0, Remove_handler 0] \<and>
   root_handlers (snd (snd (ModuleBuilder_compile make_fails example_fs (built ''sqlite'' None)
                              sqlite_builder False start))) = []"
proof -
  let ?S = "built ''sqlite'' None"
  have e: "fst (captured_logs_enter make_fails example_fs ?S sqlite_builder start) = None"
    by code_simp
  have d: "is_dir example_fs (logs_folder ?S)"
    by code_simp
  have l: "log_handler sqlite_builder = None"
    by code_simp
  have s0: "calls start = []" "next_object start = 0" "root_handlers start = []"
    by (simp_all add: start_def)
  have f: "fst (ModuleBuilder_compile make_fails example_fs ?S sqlite_builder False start) =
           Some (Raised ''make failed'')"
    by code_simp
  obtain r m' rt' where c:
    "ModuleBuilder_compile make_fails example_fs ?S sqlite_builder False start = (r, m', rt')"
    by (cases "ModuleBuilder_compile make_fails example_fs ?S sqlite_builder False start")
  have w: "log_handler m' = None \<and> handler_calls (calls rt') = [Add_handler 0, Remove_handler 0] \<and>
           root_handlers rt' = []"
    using log_handler_released [where faults = make_fails and fs = example_fs and self = ?S
        and m = sqlite_builder and x_debug = False and rt = start] e d l
    unfolding c s0 by auto
  show ?thesis
    using e d l f w unfolding c s0 by simp
qed

end
